theory Spec2Isabelle
  imports Main "HOL-Library.AList"
begin

section \<open>Data model (types.ts)\<close>

text \<open>
  Values typed \<open>unknown\<close> / \<open>any\<close> in the source are JSON values decoded from a frame.
  A JavaScript \<open>undefined\<close> (an absent optional field) is \<open>None\<close> of an option type.
\<close>

datatype json = JNull | JBool bool | JNum int | JStr string | JArr "json list"
  | JObj "(string \<times> json) list"

datatype error = TypeError | NotFound | ErrorStatus nat | FailedToExecute | QuotaExceeded

datatype status = Progress | Complete | Error

record toolExecutionItem =
  toolId :: string
  toolCallId :: "string option"
  status :: status
  inputs :: "json option"
  output' :: "json option"
  logs :: "json option list option"

text \<open>\<open>DebugDataType\<close>: the three item variants, told apart by \<open>itemType\<close>.\<close>

datatype item = ToolCall toolExecutionItem | Reasoning string | Handoff string

datatype role = User | Agent

record message =
  role :: role
  content :: string
  executionId :: "string option"

text \<open>
  A transcript is an array of message objects. \<open>handleSend\<close> compares messages with
  \<open>===\<close>, that is by object identity, so every message object carries the address it
  was allocated at; an object literal or a spread allocates a fresh address.
\<close>

type_synonym transcript = "(nat \<times> message) list"

record session =
  sessId :: "string option"
  createdAt :: "int option"
  updatedAt :: int
  sessMessages :: transcript
  sessName :: "string option"

text \<open>
  The \<open>data\<close> object of a \<open>debug_*\<close> frame (typed \<open>any\<close>): the handlers read its
  \<open>toolId\<close>, \<open>toolCallId\<close> and \<open>value\<close> properties, each of which may be missing.
\<close>

record toolEventData =
  dataToolId :: "string option"
  dataToolCallId :: "string option"
  dataValue :: "json option"

datatype debugEventType =
    Debug_tool_execution_started
  | Debug_tool_execution_inputs
  | Debug_tool_execution_finished
  | Debug_tool_execution_error
  | Debug_tool_log
  | Debug_unlisted

text \<open>
  \<open>OutputStreamEventType\<close>. The last argument of every constructor is
  \<open>meta.executionId\<close>. \<open>OtherEvent\<close> is a decoded frame of any other type.
\<close>

datatype event =
    LLMTextDelta string string
  | LLMReasoningDelta string int string
  | AgentHandoff string string
  | AgentDebug debugEventType toolEventData string
  | OtherEvent

section \<open>Debug trace reducer (debug-handlers.ts)\<close>

type_synonym debugMap = "(string \<times> item list) list"

text \<open>
  One instance of \<open>createDebugHandlers\<close>: the closure variable \<open>lastReasoningIndex\<close>
  and the value of the debug atom the handlers update.
\<close>

record debugState =
  lastReasoningIndex :: int
  debugData :: debugMap

definition initialDebugState :: "debugMap \<Rightarrow> debugState" where
  "initialDebugState prev = \<lparr>lastReasoningIndex = - 1, debugData = prev\<rparr>"

text \<open>\<open>prev[executionId] || []\<close>\<close>

definition traceOf :: "debugMap \<Rightarrow> string \<Rightarrow> item list" where
  "traceOf prev e = (case map_of prev e of None \<Rightarrow> [] | Some t \<Rightarrow> t)"

text \<open>
  The backward scan shared by the four tool update handlers:
  \<open>for (let i = currentData.length - 1; i >= 0; i--)\<close>, replacing the first tool item
  met whose \<open>toolCallId\<close> is the event's and leaving the loop there. The counter of
  the model is \<open>i + 1\<close>. The replacement may throw (\<open>handleDebugToolLog\<close>).
\<close>

fun toolLoop :: "(toolExecutionItem \<Rightarrow> error + toolExecutionItem) \<Rightarrow> string option \<Rightarrow> nat
    \<Rightarrow> item list \<Rightarrow> error + item list" where
  "toolLoop f c 0 currentData = Inr currentData"
| "toolLoop f c (Suc i) currentData =
     (case currentData ! i of
        ToolCall toolItem \<Rightarrow>
          (if toolCallId toolItem = c
           then (case f toolItem of
                   Inl err \<Rightarrow> Inl err
                 | Inr updated \<Rightarrow> Inr (currentData[i := ToolCall updated]))
           else toolLoop f c i currentData)
      | _ \<Rightarrow> toolLoop f c i currentData)"

definition handleDebugToolExecutionStarted :: "toolEventData \<Rightarrow> string \<Rightarrow> debugMap \<Rightarrow> debugMap" where
  "handleDebugToolExecutionStarted d e prev =
     AList.update e
       (traceOf prev e @
          [ToolCall \<lparr>toolId = (case dataToolId d of
                                  None \<Rightarrow> ''unknown''
                                | Some t \<Rightarrow> if t = [] then ''unknown'' else t),
                     toolCallId = dataToolCallId d,
                     status = Progress,
                     inputs = None, output' = None, logs = None\<rparr>])
       prev"

definition toolUpdate :: "(toolExecutionItem \<Rightarrow> error + toolExecutionItem) \<Rightarrow> toolEventData
    \<Rightarrow> string \<Rightarrow> debugMap \<Rightarrow> error + debugMap" where
  "toolUpdate f d e prev =
     (let currentData = traceOf prev e in
      case toolLoop f (dataToolCallId d) (length currentData) currentData of
        Inl err \<Rightarrow> Inl err
      | Inr updated \<Rightarrow> Inr (AList.update e updated prev))"

definition handleDebugToolExecutionInputs :: "toolEventData \<Rightarrow> string \<Rightarrow> debugMap \<Rightarrow> error + debugMap" where
  "handleDebugToolExecutionInputs d e prev =
     toolUpdate (\<lambda>toolItem. Inr (toolItem\<lparr>inputs := dataValue d\<rparr>)) d e prev"

definition handleDebugToolExecutionFinished :: "toolEventData \<Rightarrow> string \<Rightarrow> debugMap \<Rightarrow> error + debugMap" where
  "handleDebugToolExecutionFinished d e prev =
     toolUpdate (\<lambda>toolItem. Inr (toolItem\<lparr>status := Complete, output' := dataValue d\<rparr>)) d e prev"

definition handleDebugToolExecutionError :: "toolEventData \<Rightarrow> string \<Rightarrow> debugMap \<Rightarrow> error + debugMap" where
  "handleDebugToolExecutionError d e prev =
     toolUpdate (\<lambda>toolItem. Inr (toolItem\<lparr>status := Error, output' := dataValue d\<rparr>)) d e prev"

text \<open>
  \<open>(parsed.data as { value: unknown[] }).value[0]\<close>: indexing \<open>undefined\<close> or \<open>null\<close>
  throws a TypeError; an array gives its first element, or \<open>undefined\<close> when it is
  empty; a string gives its first character; an object its property \<open>"0"\<close>; a number
  or a boolean gives \<open>undefined\<close>.
\<close>

definition firstOfValue :: "json option \<Rightarrow> error + json option" where
  "firstOfValue v =
     (case v of
        None \<Rightarrow> Inl TypeError
      | Some JNull \<Rightarrow> Inl TypeError
      | Some (JArr xs) \<Rightarrow> Inr (case xs of [] \<Rightarrow> None | x # _ \<Rightarrow> Some x)
      | Some (JStr s) \<Rightarrow> Inr (case s of [] \<Rightarrow> None | ch # _ \<Rightarrow> Some (JStr [ch]))
      | Some (JObj kvs) \<Rightarrow> Inr (map_of (rev kvs) ''0'')
      | Some _ \<Rightarrow> Inr None)"

definition handleDebugToolLog :: "toolEventData \<Rightarrow> string \<Rightarrow> debugMap \<Rightarrow> error + debugMap" where
  "handleDebugToolLog d e prev =
     toolUpdate
       (\<lambda>toolItem.
          let currentLogs = (case logs toolItem of None \<Rightarrow> [] | Some l \<Rightarrow> l) in
          case firstOfValue (dataValue d) of
            Inl err \<Rightarrow> Inl err
          | Inr entry \<Rightarrow> Inr (toolItem\<lparr>logs := Some (currentLogs @ [entry])\<rparr>))
       d e prev"

text \<open>The backward scan of \<open>handleDebugReasoningStep\<close>, counter \<open>i + 1\<close> again.\<close>

fun reasoningLoop :: "string \<Rightarrow> nat \<Rightarrow> item list \<Rightarrow> item list" where
  "reasoningLoop delta 0 currentData = currentData"
| "reasoningLoop delta (Suc i) currentData =
     (case currentData ! i of
        Reasoning r \<Rightarrow> currentData[i := Reasoning (r @ delta)]
      | _ \<Rightarrow> reasoningLoop delta i currentData)"

definition handleDebugReasoningStep :: "string \<Rightarrow> int \<Rightarrow> string \<Rightarrow> debugState \<Rightarrow> debugState" where
  "handleDebugReasoningStep delta index e s =
     (let currentData = traceOf (debugData s) e;
          fresh = (lastReasoningIndex s < index);
          pushed = (if fresh then currentData @ [Reasoning []] else currentData)
      in \<lparr>lastReasoningIndex = (if fresh then index else lastReasoningIndex s),
          debugData = AList.update e (reasoningLoop delta (length pushed) pushed) (debugData s)\<rparr>)"

definition handleAgentHandoff :: "string \<Rightarrow> string \<Rightarrow> debugMap \<Rightarrow> debugMap" where
  "handleAgentHandoff agentName e prev = AList.update e (traceOf prev e @ [Handoff agentName]) prev"

text \<open>
  Lifting an update of the debug atom to the handler instance. When the updater
  throws, the atom is not written and the exception leaves \<open>handleDebugEvent\<close>.
\<close>

definition setDebugData :: "(debugMap \<Rightarrow> error + debugMap) \<Rightarrow> debugState \<Rightarrow> error + debugState" where
  "setDebugData upd s =
     (case upd (debugData s) of Inl err \<Rightarrow> Inl err | Inr m \<Rightarrow> Inr (s\<lparr>debugData := m\<rparr>))"

fun handleDebugEvent :: "event \<Rightarrow> debugState \<Rightarrow> error + debugState" where
  "handleDebugEvent (AgentDebug Debug_tool_execution_started d e) s =
     setDebugData (\<lambda>prev. Inr (handleDebugToolExecutionStarted d e prev)) s"
| "handleDebugEvent (AgentDebug Debug_tool_execution_inputs d e) s =
     setDebugData (handleDebugToolExecutionInputs d e) s"
| "handleDebugEvent (AgentDebug Debug_tool_execution_finished d e) s =
     setDebugData (handleDebugToolExecutionFinished d e) s"
| "handleDebugEvent (AgentDebug Debug_tool_execution_error d e) s =
     setDebugData (handleDebugToolExecutionError d e) s"
| "handleDebugEvent (AgentDebug Debug_tool_log d e) s =
     setDebugData (handleDebugToolLog d e) s"
| "handleDebugEvent (LLMReasoningDelta delta index e) s =
     Inr (handleDebugReasoningStep delta index e s)"
| "handleDebugEvent (AgentHandoff agentName e) s =
     setDebugData (\<lambda>prev. Inr (handleAgentHandoff agentName e prev)) s"
| "handleDebugEvent _ s = Inr s"

text \<open>
  The reducer as the stream consumer uses it: an exception of a handler is caught by
  \<open>onmessage\<close> and the frame is dropped.
\<close>

definition reduce :: "debugState \<Rightarrow> event \<Rightarrow> debugState" where
  "reduce s ev = (case handleDebugEvent ev s of Inl _ \<Rightarrow> s | Inr s' \<Rightarrow> s')"

text \<open>The execution id a debug event carries.\<close>

fun eventExecutionId :: "event \<Rightarrow> string option" where
  "eventExecutionId (LLMTextDelta _ e) = Some e"
| "eventExecutionId (LLMReasoningDelta _ _ e) = Some e"
| "eventExecutionId (AgentHandoff _ e) = Some e"
| "eventExecutionId (AgentDebug _ _ e) = Some e"
| "eventExecutionId OtherEvent = None"

definition isToolFor :: "string option \<Rightarrow> item \<Rightarrow> bool" where
  "isToolFor c it = (case it of ToolCall t \<Rightarrow> toolCallId t = c | _ \<Rightarrow> False)"

definition isReasoning :: "item \<Rightarrow> bool" where
  "isReasoning it = (case it of Reasoning _ \<Rightarrow> True | _ \<Rightarrow> False)"

text \<open>
  \<open>mostRecent P t i\<close>: position \<open>i\<close> holds the last item of \<open>t\<close> that satisfies \<open>P\<close>.
\<close>

definition mostRecent :: "(item \<Rightarrow> bool) \<Rightarrow> item list \<Rightarrow> nat \<Rightarrow> bool" where
  "mostRecent P t i = (i < length t \<and> P (t ! i) \<and> (\<forall>j. i < j \<and> j < length t \<longrightarrow> \<not> P (t ! j)))"

text \<open>The item \<open>handleDebugToolExecutionStarted\<close> appends.\<close>

definition startedItem :: "toolEventData \<Rightarrow> toolExecutionItem" where
  "startedItem d =
     \<lparr>toolId = (case dataToolId d of None \<Rightarrow> ''unknown'' | Some t \<Rightarrow> if t = [] then ''unknown'' else t),
      toolCallId = dataToolCallId d, status = Progress,
      inputs = None, output' = None, logs = None\<rparr>"

text \<open>The four event types that update an existing tool item.\<close>

definition isToolUpdate :: "debugEventType \<Rightarrow> bool" where
  "isToolUpdate ty = (ty = Debug_tool_execution_inputs \<or> ty = Debug_tool_execution_finished
     \<or> ty = Debug_tool_execution_error \<or> ty = Debug_tool_log)"

section \<open>Session repository (session-utils.ts, atoms.ts)\<close>

definition DEFAULT_SESSION_NAME :: string where
  "DEFAULT_SESSION_NAME = ''New Chat''"

definition TEMPORARY_SESSION_ID :: string where
  "TEMPORARY_SESSION_ID = ''sess_temp''"

text \<open>
  \<open>Record<string, Session>\<close> and \<open>Record<string, Record<string, Session>>\<close>: objects
  as association lists in property order. A spread followed by a computed key keeps
  the position of a key that exists and appends a new one, as \<open>AList.update\<close> does;
  \<open>delete\<close> is \<open>AList.delete\<close>; \<open>Object.values\<close> is \<open>map snd\<close>. JavaScript lists
  keys that are canonical array indices before all others; the lists here keep
  insertion order, which is the property order for ids that are not such numbers.
\<close>

type_synonym sessionMap = "(string \<times> session) list"

type_synonym allSessionsMap = "(string \<times> sessionMap) list"

text \<open>\<open>!currentSessionId\<close> for a value that is a string or \<open>undefined\<close>.\<close>

definition falsy :: "string option \<Rightarrow> bool" where
  "falsy v = (v = None \<or> v = Some [])"

text \<open>\<open>allSessions[agentId] || {}\<close>, also the spread \<open>{ ...prev[agentId] }\<close>.\<close>

definition agentSessionsOf :: "allSessionsMap \<Rightarrow> string \<Rightarrow> sessionMap" where
  "agentSessionsOf prev agentId = (case map_of prev agentId of None \<Rightarrow> [] | Some m \<Rightarrow> m)"

text \<open>
  \<open>syncSessionRef.current\<close>. \<open>agentId\<close>, \<open>currentSessionId\<close> and \<open>messagesRef\<close> are
  what the closure holds, \<open>now\<close> is \<open>Date.now()\<close>, \<open>prev\<close> the value of the session
  atom. Spreading a session that does not exist gives an object with the two fields
  written here and no others.
\<close>

definition syncSession :: "string \<Rightarrow> string option \<Rightarrow> transcript \<Rightarrow> int \<Rightarrow> transcript option
    \<Rightarrow> allSessionsMap \<Rightarrow> allSessionsMap" where
  "syncSession agentId currentSessionId messagesRef now updatedMessages prev =
     (case currentSessionId of
        None \<Rightarrow> prev
      | Some sid \<Rightarrow>
          if sid = [] \<or> sid = TEMPORARY_SESSION_ID then prev
          else
            (let msgs = (case updatedMessages of None \<Rightarrow> messagesRef | Some m \<Rightarrow> m);
                 merged = (case map_of (agentSessionsOf prev agentId) sid of
                             None \<Rightarrow> \<lparr>sessId = None, createdAt = None, updatedAt = now,
                                       sessMessages = msgs, sessName = None\<rparr>
                           | Some old \<Rightarrow> old\<lparr>sessMessages := msgs, updatedAt := now\<rparr>)
             in AList.update agentId (AList.update sid merged (agentSessionsOf prev agentId)) prev))"

text \<open>\<open>sessions.sort((a, b) => b.updatedAt - a.updatedAt)\<close>; the sort is stable.\<close>

definition sortByUpdatedAtDesc :: "session list \<Rightarrow> session list" where
  "sortByUpdatedAtDesc sessions = sort_key (\<lambda>s. - updatedAt s) sessions"

definition getInitialSessionId :: "sessionMap \<Rightarrow> string option" where
  "getInitialSessionId agentSessions =
     (let sessions = map snd agentSessions in
      if length sessions > 0 then sessId (hd (sortByUpdatedAtDesc sessions))
      else Some TEMPORARY_SESSION_ID)"

definition createSessionFromResponse :: "string \<Rightarrow> string \<Rightarrow> string \<Rightarrow> transcript \<Rightarrow> int
    \<Rightarrow> allSessionsMap \<Rightarrow> allSessionsMap" where
  "createSessionFromResponse agentId sessionId sessionName currentMessages now prev =
     AList.update agentId
       (AList.update sessionId
          \<lparr>sessId = Some sessionId, createdAt = Some now, updatedAt = now,
           sessMessages = currentMessages, sessName = Some sessionName\<rparr>
          (agentSessionsOf prev agentId))
       prev"

section \<open>The state of one agent runner (use-agent.ts)\<close>

text \<open>
  The state \<open>useAgent\<close> holds for one agent id: the \<open>messages\<close>, \<open>inProgress\<close> and
  \<open>currentSessionId\<close> state cells, the two atoms, the debug handler instance the
  running stream uses, and the next free address for a message object.
  A callback closes over the values of the last render; a render follows every state
  change before the next callback starts, so at the start of a callback the closure
  values (\<open>currentSessionId\<close>, \<open>agentSessions\<close>, \<open>messagesRef.current\<close>) are those
  of the state, and they stay so until the callback ends, also after it has set a
  state cell.

  The effect that loads the transcript of the current session into \<open>messages\<close> while
  \<open>inProgress\<close> is off (an empty transcript for a session that is not stored) is not
  part of the model: a state here is the state right after the updates a callback
  makes itself, before that effect runs.
\<close>

record hook =
  messages :: transcript
  inProgress :: bool
  currentSessionId :: "string option"
  allSessions :: allSessionsMap
  debug :: debugState
  nextAddr :: nat

definition switchSession :: "string option \<Rightarrow> hook \<Rightarrow> hook" where
  "switchSession sessionId st =
     st\<lparr>currentSessionId :=
          Some (case sessionId of None \<Rightarrow> TEMPORARY_SESSION_ID | Some sid \<Rightarrow> sid)\<rparr>"

definition deleteSession :: "string \<Rightarrow> string \<Rightarrow> hook \<Rightarrow> hook" where
  "deleteSession agentId sessionId st =
     (if sessionId = [] \<or> sessionId = TEMPORARY_SESSION_ID then st
      else
        (let agentSessions = agentSessionsOf (allSessions st) agentId;
             st' = st\<lparr>allSessions :=
                        AList.update agentId (AList.delete sessionId agentSessions) (allSessions st)\<rparr>
         in if Some sessionId = currentSessionId st
            then (let remainingSessions =
                        filter (\<lambda>s. sessId s \<noteq> Some sessionId) (map snd agentSessions)
                  in if length remainingSessions > 0
                     then st'\<lparr>currentSessionId := sessId (hd (sortByUpdatedAtDesc remainingSessions))\<rparr>
                     else st'\<lparr>currentSessionId := Some TEMPORARY_SESSION_ID\<rparr>)
            else st'))"

text \<open>\<open>sync(messages?)\<close> as a caller of the hook sees it.\<close>

definition sync :: "string \<Rightarrow> transcript option \<Rightarrow> int \<Rightarrow> hook \<Rightarrow> hook" where
  "sync agentId updatedMessages now st =
     st\<lparr>allSessions := syncSession agentId (currentSessionId st) (messages st) now updatedMessages
                          (allSessions st)\<rparr>"

text \<open>The operations of the session repository, for statements about sequences of them.\<close>

datatype repoOp =
    Sync "transcript option" int
  | SwitchSession "string option"
  | DeleteSession string
  | CreateSessionFromResponse string string transcript int

fun applyOp :: "string \<Rightarrow> hook \<Rightarrow> repoOp \<Rightarrow> hook" where
  "applyOp agentId st (Sync updatedMessages now) = sync agentId updatedMessages now st"
| "applyOp agentId st (SwitchSession sessionId) = switchSession sessionId st"
| "applyOp agentId st (DeleteSession sessionId) = deleteSession agentId sessionId st"
| "applyOp agentId st (CreateSessionFromResponse sessionId sessionName currentMessages now) =
     st\<lparr>allSessions := createSessionFromResponse agentId sessionId sessionName currentMessages now
                          (allSessions st)\<rparr>"

text \<open>No session of any agent is stored under the temporary id.\<close>

definition noTemporary :: "allSessionsMap \<Rightarrow> bool" where
  "noTemporary m = (\<forall>a. map_of (agentSessionsOf m a) TEMPORARY_SESSION_ID = None)"

text \<open>
  Every session of the agent is stored under its own \<open>id\<close>, and no key occurs twice
  (the list stands for an object).
\<close>

definition keyedById :: "sessionMap \<Rightarrow> bool" where
  "keyedById m = (distinct (map fst m) \<and> (\<forall>(k, s)\<in>set m. sessId s = Some k))"

text \<open>A repository operation that stores a session under the temporary id.\<close>

definition createsTemporary :: "repoOp \<Rightarrow> bool" where
  "createsTemporary op =
     (case op of CreateSessionFromResponse sessionId _ _ _ \<Rightarrow> sessionId = TEMPORARY_SESSION_ID
      | _ \<Rightarrow> False)"

text \<open>The state of a runner that has just been mounted, with nothing persisted.\<close>

definition initialHook :: hook where
  "initialHook =
     \<lparr>messages = [], inProgress = False, currentSessionId = Some TEMPORARY_SESSION_ID,
      allSessions = [], debug = initialDebugState [], nextAddr = 0\<rparr>"

section \<open>Stream consumer (use-agent.ts)\<close>

text \<open>\<open>Date.now().toString()\<close>: the decimal digits of the timestamp.\<close>

definition digitChar :: "nat \<Rightarrow> char" where
  "digitChar n = ''0123456789'' ! n"

function toStringNat :: "nat \<Rightarrow> string" where
  "toStringNat n = (if n < 10 then [digitChar n] else toStringNat (n div 10) @ [digitChar (n mod 10)])"
  by pat_completeness auto
termination
  by (relation "measure id") auto

declare toStringNat.simps [simp del]

definition toString :: "int \<Rightarrow> string" where
  "toString n = (if n < 0 then CHR ''-'' # toStringNat (nat (- n)) else toStringNat (nat n))"

text \<open>
  The object literal \<open>userMessage\<close> of \<open>handleSend\<close> and \<open>addOptimisticMessage\<close>,
  allocated at the next free address.
\<close>

definition newUserMessage :: "string \<Rightarrow> int \<Rightarrow> hook \<Rightarrow> nat \<times> message" where
  "newUserMessage input now st =
     (nextAddr st, \<lparr>role = User, content = input, executionId = Some (toString now)\<rparr>)"

text \<open>
  \<open>setMessages((prev) => { const updatedMessages = [...prev, userMessage]; sync; return updatedMessages })\<close>
\<close>

definition appendUserMessage :: "string \<Rightarrow> nat \<times> message \<Rightarrow> int \<Rightarrow> hook \<Rightarrow> hook" where
  "appendUserMessage agentId userMessage now st =
     (let updatedMessages = messages st @ [userMessage] in
      st\<lparr>messages := updatedMessages,
         allSessions := syncSession agentId (currentSessionId st) (messages st) now
                          (Some updatedMessages) (allSessions st)\<rparr>)"

definition addOptimisticMessage :: "string \<Rightarrow> string \<Rightarrow> int \<Rightarrow> hook \<Rightarrow> hook" where
  "addOptimisticMessage agentId input now st =
     appendUserMessage agentId (newUserMessage input now st) now (st\<lparr>nextAddr := Suc (nextAddr st)\<rparr>)"

text \<open>The status and the three headers \<open>onopen\<close> reads from the response.\<close>

record response =
  respStatus :: nat
  sessionIdHeader :: "string option"
  sessionNameHeader :: "string option"
  executionIdHeader :: "string option"

text \<open>
  The update of \<open>onopen\<close> for a response with an execution id: the last message, when
  it is a user message, is replaced by a copy that carries the id, and the copy of the
  transcript is handed to \<open>syncSessionRef.current\<close>. \<open>closureSessionId\<close> is the
  \<open>currentSessionId\<close> that function closes over.
\<close>

definition attachExecutionId :: "string \<Rightarrow> string option \<Rightarrow> string \<Rightarrow> int \<Rightarrow> hook \<Rightarrow> hook" where
  "attachExecutionId agentId closureSessionId execId now st =
     (let prev = messages st in
      if prev \<noteq> [] \<and> role (snd (last prev)) = User
      then
        (let updatedMessage = (nextAddr st, (snd (last prev))\<lparr>executionId := Some execId\<rparr>);
             updatedMessages = butlast prev @ [updatedMessage]
         in st\<lparr>messages := updatedMessages,
               nextAddr := Suc (nextAddr st),
               allSessions := syncSession agentId closureSessionId prev now
                                (Some updatedMessages) (allSessions st)\<rparr>)
      else st)"

definition onopen :: "string \<Rightarrow> response \<Rightarrow> int \<Rightarrow> hook \<Rightarrow> error + hook" where
  "onopen agentId resp now st =
     (if respStatus resp \<ge> 400
      then (if respStatus resp = 404 then Inl NotFound else Inl (ErrorStatus (respStatus resp)))
      else
        (let closureSessionId = currentSessionId st;
             st1 =
               (if falsy closureSessionId \<or> closureSessionId = Some TEMPORARY_SESSION_ID
                then (case sessionIdHeader resp of
                        None \<Rightarrow> st
                      | Some sessionId \<Rightarrow>
                          if sessionId = [] then st
                          else
                            (let currentMessages = messages st;
                                 sessionName = (case sessionNameHeader resp of
                                                  None \<Rightarrow> DEFAULT_SESSION_NAME
                                                | Some n \<Rightarrow> if n = [] then DEFAULT_SESSION_NAME else n)
                             in st\<lparr>allSessions := createSessionFromResponse agentId sessionId sessionName
                                                      currentMessages now (allSessions st),
                                   currentSessionId := Some sessionId\<rparr>))
                else st)
         in case executionIdHeader resp of
              None \<Rightarrow> Inr st1
            | Some execId \<Rightarrow>
                if execId = [] then Inr st1
                else Inr (attachExecutionId agentId closureSessionId execId now st1)))"

text \<open>The \<open>llm_text_delta\<close> branch of \<open>onmessage\<close>.\<close>

definition onTextDelta :: "string \<Rightarrow> string \<Rightarrow> string \<Rightarrow> int \<Rightarrow> hook \<Rightarrow> hook" where
  "onTextDelta agentId data execId now st =
     (let prev = messages st;
          updatedMessages =
            (if prev \<noteq> [] \<and> role (snd (last prev)) = Agent
             then butlast prev @
                    [(nextAddr st, (snd (last prev))\<lparr>content := content (snd (last prev)) @ data\<rparr>)]
             else prev @ [(nextAddr st, \<lparr>role = Agent, content = data, executionId = Some execId\<rparr>)])
      in st\<lparr>messages := updatedMessages,
            nextAddr := Suc (nextAddr st),
            allSessions := syncSession agentId (currentSessionId st) prev now
                             (Some updatedMessages) (allSessions st)\<rparr>)"

text \<open>
  A frame of the stream: \<open>Malformed\<close> when \<open>JSON.parse\<close> throws (the frame is logged
  and dropped), otherwise the decoded event. Events whose type starts with \<open>debug_\<close>,
  reasoning deltas and handoffs go to the debug handlers; a frame of any other type is
  ignored.
\<close>

datatype frame = Malformed | Parsed event

fun onmessage :: "string \<Rightarrow> frame \<Rightarrow> int \<Rightarrow> hook \<Rightarrow> hook" where
  "onmessage agentId Malformed now st = st"
| "onmessage agentId (Parsed (LLMTextDelta data execId)) now st = onTextDelta agentId data execId now st"
| "onmessage agentId (Parsed OtherEvent) now st = st"
| "onmessage agentId (Parsed ev) now st = st\<lparr>debug := reduce (debug st) ev\<rparr>"

definition onclose :: "string \<Rightarrow> int \<Rightarrow> hook \<Rightarrow> hook" where
  "onclose agentId now st =
     st\<lparr>inProgress := False,
        allSessions := syncSession agentId (currentSessionId st) (messages st) now None (allSessions st)\<rparr>"

text \<open>
  \<open>onerror\<close> and the \<open>catch\<close> of \<open>runAgent\<close> do the same to the state: \<open>inProgress\<close>
  off and a sync of \<open>messagesRef.current\<close>; both then throw.
\<close>

definition onerror :: "string \<Rightarrow> int \<Rightarrow> hook \<Rightarrow> hook" where
  "onerror agentId now st =
     st\<lparr>inProgress := False,
        allSessions := syncSession agentId (currentSessionId st) (messages st) now
                         (Some (messages st)) (allSessions st)\<rparr>"

text \<open>
  What the server and the transport do in one request: the connection fails, or a
  response arrives and then frames, until the stream is closed or breaks. Every step
  carries the value \<open>Date.now()\<close> has when its callback runs.

  \<open>fetchEventSource\<close> (an external library) passes every exception of the request,
  of \<open>onopen\<close> or of the stream to \<open>onerror\<close>; \<open>onerror\<close> throws, which rejects the
  call with the error \<open>onerror\<close> threw. A closed stream calls \<open>onclose\<close> and resolves.
\<close>

datatype ending = StreamClosed | StreamBroken

datatype exchange =
    ConnectionFailed int
  | Responded response int "(frame \<times> int) list" ending int

definition failed :: "string \<Rightarrow> int \<Rightarrow> hook \<Rightarrow> error option \<times> hook" where
  "failed agentId now st = (Some FailedToExecute, onerror agentId now (onerror agentId now st))"

text \<open>
  \<open>runAgent\<close>. The debug handler instance it closes over is the one of the render the
  callback was made in, whose \<open>lastReasoningIndex\<close> is still \<open>-1\<close>. The result is the
  error the returned promise is rejected with, if any, and the state left behind.
\<close>

fun runAgent :: "string \<Rightarrow> exchange \<Rightarrow> hook \<Rightarrow> error option \<times> hook" where
  "runAgent agentId (ConnectionFailed now) st =
     failed agentId now (st\<lparr>inProgress := True, debug := initialDebugState (debugData (debug st))\<rparr>)"
| "runAgent agentId (Responded resp tOpen frames how tEnd) st =
     (let st0 = st\<lparr>inProgress := True, debug := initialDebugState (debugData (debug st))\<rparr> in
      case onopen agentId resp tOpen st0 of
        Inl err \<Rightarrow> failed agentId tOpen st0
      | Inr st1 \<Rightarrow>
          (let st2 = foldl (\<lambda>s (fr, now). onmessage agentId fr now s) st1 frames in
           case how of
             StreamClosed \<Rightarrow> (None, onclose agentId tEnd st2)
           | StreamBroken \<Rightarrow> failed agentId tEnd st2))"

fun endTime :: "exchange \<Rightarrow> int" where
  "endTime (ConnectionFailed now) = now"
| "endTime (Responded resp tOpen frames how tEnd) = tEnd"

text \<open>
  The \<open>catch\<close> of \<open>handleSend\<close>: \<open>prev.some((m) => m === userMessage)\<close> compares object
  identities, that is addresses.
\<close>

definition preserveUserMessage :: "string \<Rightarrow> nat \<times> message \<Rightarrow> int \<Rightarrow> hook \<Rightarrow> hook" where
  "preserveUserMessage agentId userMessage now st =
     (let prev = messages st;
          updatedMessages = (if \<exists>m\<in>set prev. fst m = fst userMessage then prev
                             else prev @ [userMessage])
      in st\<lparr>messages := updatedMessages,
            allSessions := syncSession agentId (currentSessionId st) prev now
                             (Some updatedMessages) (allSessions st)\<rparr>)"

definition handleSend :: "string \<Rightarrow> string \<Rightarrow> bool \<Rightarrow> int \<Rightarrow> exchange \<Rightarrow> hook \<Rightarrow> error option \<times> hook" where
  "handleSend agentId input skipUserMessage now ex st =
     (let userMessage = newUserMessage input now st;
          st0 = st\<lparr>nextAddr := Suc (nextAddr st)\<rparr>;
          st1 = (if \<not> skipUserMessage then appendUserMessage agentId userMessage now st0 else st0)
      in case runAgent agentId ex st1 of
           (None, st2) \<Rightarrow> (None, st2)
         | (Some err, st2) \<Rightarrow>
             (Some err,
              if \<not> skipUserMessage then preserveUserMessage agentId userMessage (endTime ex) st2
              else st2))"

text \<open>The user messages of a transcript, without their addresses.\<close>

definition userMessages :: "transcript \<Rightarrow> message list" where
  "userMessages t = filter (\<lambda>m. role m = User) (map snd t)"

text \<open>
  A sequence of \<open>llm_text_delta\<close> frames with one execution id, delivered to
  \<open>onmessage\<close> in order; each payload comes with the time of its callback.
\<close>

definition deliverText :: "string \<Rightarrow> string \<Rightarrow> (string \<times> int) list \<Rightarrow> hook \<Rightarrow> hook" where
  "deliverText agentId execId deltas st =
     foldl (\<lambda>s (data, now). onmessage agentId (Parsed (LLMTextDelta data execId)) now s) st deltas"

section \<open>Synced atom (atomWithSyncedLocalStorage.ts)\<close>

text \<open>
  The atom's in-memory value (\<open>baseAtom\<close>) and what the storage holds under the key.
  \<open>update\<close> is a value or a function of the previous value, and either may be \<open>RESET\<close>.
\<close>

record 'v syncedAtom =
  baseAtom :: 'v
  stored :: "'v option"

datatype 'v action = RESET | Value 'v

datatype 'v setStateAction = Direct "'v action" | Updater "'v \<Rightarrow> 'v action"

text \<open>
  \<open>storage.setItem(key, v)\<close>: the storage is an external capability, known here by
  the values it accepts; it throws on any other value (the quota is exceeded).
\<close>

definition setItem :: "('v \<Rightarrow> bool) \<Rightarrow> 'v \<Rightarrow> 'v syncedAtom \<Rightarrow> error + 'v syncedAtom" where
  "setItem accepts v s = (if accepts v then Inr (s\<lparr>stored := Some v\<rparr>) else Inl QuotaExceeded)"

text \<open>
  The write function of \<open>derivedAtom\<close>. \<open>overrideValue\<close> is the optional fourth argument
  (taken as a function of the value to store), \<open>truthy\<close> says which values JavaScript
  counts as true in \<open>overrideValue?.(...) || nextValue\<close>. The result is the exception
  that leaves the write, if any, and the atom after it: a value set on \<open>baseAtom\<close>
  stays set when the write throws later.
\<close>

definition writeAtom :: "'v \<Rightarrow> ('v \<Rightarrow> bool) \<Rightarrow> ('v \<Rightarrow> 'v) option \<Rightarrow> ('v \<Rightarrow> bool)
    \<Rightarrow> 'v setStateAction \<Rightarrow> 'v syncedAtom \<Rightarrow> error option \<times> 'v syncedAtom" where
  "writeAtom initialValue accepts overrideValue truthy update s =
     (let nextValue = (case update of Updater f \<Rightarrow> f (baseAtom s) | Direct a \<Rightarrow> a) in
      case nextValue of
        RESET \<Rightarrow> (None, \<lparr>baseAtom = initialValue, stored = None\<rparr>)
      | Value v \<Rightarrow>
          (let s1 = s\<lparr>baseAtom := v\<rparr> in
           case setItem accepts v s1 of
             Inr s2 \<Rightarrow> (None, s2)
           | Inl _ \<Rightarrow>
               (let overridenValue =
                      (case overrideValue of
                         None \<Rightarrow> v
                       | Some f \<Rightarrow> if truthy (f v) then f v else v)
                in case setItem accepts overridenValue s1 of
                     Inr s2 \<Rightarrow> (None, s2)
                   | Inl err \<Rightarrow> (Some err, s1))))"

section \<open>Properties of the debug trace reducer\<close>

lemma traceOf_update_same: "traceOf (AList.update e t m) e = t"
  by (simp add: traceOf_def update_conv')

lemma traceOf_update_other: "e' \<noteq> e \<Longrightarrow> traceOf (AList.update e t m) e' = traceOf m e'"
  by (simp add: traceOf_def update_conv')

lemma toolLoop_none:
  "(\<forall>j<n. \<not> isToolFor c (xs ! j)) \<Longrightarrow> toolLoop f c n xs = Inr xs"
  by (induction n) (auto simp: isToolFor_def split: item.splits)

lemma toolLoop_hit:
  "i < n \<Longrightarrow> xs ! i = ToolCall t \<Longrightarrow> toolCallId t = c \<Longrightarrow>
   (\<forall>j. i < j \<and> j < n \<longrightarrow> \<not> isToolFor c (xs ! j)) \<Longrightarrow>
   toolLoop f c n xs = (case f t of Inl err \<Rightarrow> Inl err | Inr u \<Rightarrow> Inr (xs[i := ToolCall u]))"
proof (induction n)
  case 0
  then show ?case by simp
next
  case (Suc n)
  show ?case
  proof (cases "i = n")
    case True
    with Suc.prems show ?thesis by auto
  next
    case False
    with Suc.prems have lt: "i < n" by simp
    from Suc.prems lt have nomatch: "\<not> isToolFor c (xs ! n)" by simp
    have rest: "\<forall>j. i < j \<and> j < n \<longrightarrow> \<not> isToolFor c (xs ! j)"
      using Suc.prems by simp
    have "toolLoop f c (Suc n) xs = toolLoop f c n xs"
      using nomatch by (simp add: isToolFor_def split: item.splits)
    then show ?thesis
      using Suc.IH [OF lt Suc.prems(2) Suc.prems(3) rest] by simp
  qed
qed

lemma reasoningLoop_none:
  "(\<forall>j<n. \<not> isReasoning (xs ! j)) \<Longrightarrow> reasoningLoop d n xs = xs"
  by (induction n) (auto simp: isReasoning_def split: item.splits)

lemma reasoningLoop_hit:
  "i < n \<Longrightarrow> xs ! i = Reasoning r \<Longrightarrow>
   (\<forall>j. i < j \<and> j < n \<longrightarrow> \<not> isReasoning (xs ! j)) \<Longrightarrow>
   reasoningLoop d n xs = xs[i := Reasoning (r @ d)]"
proof (induction n)
  case 0
  then show ?case by simp
next
  case (Suc n)
  show ?case
  proof (cases "i = n")
    case True
    with Suc.prems show ?thesis by auto
  next
    case False
    with Suc.prems have lt: "i < n" by simp
    from Suc.prems lt have nomatch: "\<not> isReasoning (xs ! n)" by simp
    have rest: "\<forall>j. i < j \<and> j < n \<longrightarrow> \<not> isReasoning (xs ! j)"
      using Suc.prems by simp
    have "reasoningLoop d (Suc n) xs = reasoningLoop d n xs"
      using nomatch by (simp add: isReasoning_def split: item.splits)
    then show ?thesis
      using Suc.IH [OF lt Suc.prems(2) rest] by simp
  qed
qed

lemma toolUpdate_hit:
  assumes "mostRecent (isToolFor (dataToolCallId d)) (traceOf prev e) i"
    and "traceOf prev e ! i = ToolCall t"
  shows "toolUpdate f d e prev =
     (case f t of Inl err \<Rightarrow> Inl err
      | Inr u \<Rightarrow> Inr (AList.update e ((traceOf prev e)[i := ToolCall u]) prev))"
proof -
  from assms have "toolCallId t = dataToolCallId d"
    by (simp add: mostRecent_def isToolFor_def)
  with assms have "toolLoop f (dataToolCallId d) (length (traceOf prev e)) (traceOf prev e) =
      (case f t of Inl err \<Rightarrow> Inl err | Inr u \<Rightarrow> Inr ((traceOf prev e)[i := ToolCall u]))"
    by (intro toolLoop_hit) (simp_all add: mostRecent_def)
  then show ?thesis
    by (simp add: toolUpdate_def Let_def split: sum.splits)
qed

lemma toolUpdate_none:
  assumes "\<forall>j<length (traceOf prev e). \<not> isToolFor (dataToolCallId d) (traceOf prev e ! j)"
  shows "toolUpdate f d e prev = Inr (AList.update e (traceOf prev e) prev)"
  using toolLoop_none [OF assms, of f] by (simp add: toolUpdate_def Let_def)

lemma trace_started:
  "traceOf (debugData (reduce s (AgentDebug Debug_tool_execution_started d e))) e =
     traceOf (debugData s) e @ [ToolCall (startedItem d)]"
  by (simp add: reduce_def setDebugData_def handleDebugToolExecutionStarted_def
      traceOf_update_same startedItem_def)

lemma trace_inputs_hit:
  assumes "mostRecent (isToolFor (dataToolCallId d)) (traceOf (debugData s) e) i"
    and "traceOf (debugData s) e ! i = ToolCall t"
  shows "traceOf (debugData (reduce s (AgentDebug Debug_tool_execution_inputs d e))) e =
     (traceOf (debugData s) e)[i := ToolCall (t\<lparr>inputs := dataValue d\<rparr>)]"
  by (simp add: reduce_def setDebugData_def handleDebugToolExecutionInputs_def
      toolUpdate_hit [OF assms] traceOf_update_same)

lemma trace_finished_hit:
  assumes "mostRecent (isToolFor (dataToolCallId d)) (traceOf (debugData s) e) i"
    and "traceOf (debugData s) e ! i = ToolCall t"
  shows "traceOf (debugData (reduce s (AgentDebug Debug_tool_execution_finished d e))) e =
     (traceOf (debugData s) e)[i := ToolCall (t\<lparr>status := Complete, output' := dataValue d\<rparr>)]"
  by (simp add: reduce_def setDebugData_def handleDebugToolExecutionFinished_def
      toolUpdate_hit [OF assms] traceOf_update_same)

lemma trace_error_hit:
  assumes "mostRecent (isToolFor (dataToolCallId d)) (traceOf (debugData s) e) i"
    and "traceOf (debugData s) e ! i = ToolCall t"
  shows "traceOf (debugData (reduce s (AgentDebug Debug_tool_execution_error d e))) e =
     (traceOf (debugData s) e)[i := ToolCall (t\<lparr>status := Error, output' := dataValue d\<rparr>)]"
  by (simp add: reduce_def setDebugData_def handleDebugToolExecutionError_def
      toolUpdate_hit [OF assms] traceOf_update_same)

lemma trace_log_hit:
  assumes "mostRecent (isToolFor (dataToolCallId d)) (traceOf (debugData s) e) i"
    and "traceOf (debugData s) e ! i = ToolCall t"
  shows "traceOf (debugData (reduce s (AgentDebug Debug_tool_log d e))) e =
     (case firstOfValue (dataValue d) of
        Inl err \<Rightarrow> traceOf (debugData s) e
      | Inr entry \<Rightarrow> (traceOf (debugData s) e)
          [i := ToolCall (t\<lparr>logs := Some ((case logs t of None \<Rightarrow> [] | Some l \<Rightarrow> l) @ [entry])\<rparr>)])"
  by (simp add: reduce_def setDebugData_def handleDebugToolLog_def
      toolUpdate_hit [OF assms] traceOf_update_same Let_def split: sum.splits)

lemma trace_update_none:
  assumes "isToolUpdate ty"
    and "\<forall>it\<in>set (traceOf (debugData s) e). \<not> isToolFor (dataToolCallId d) it"
  shows "traceOf (debugData (reduce s (AgentDebug ty d e))) e = traceOf (debugData s) e"
proof -
  from assms(2) have none:
    "\<forall>j<length (traceOf (debugData s) e). \<not> isToolFor (dataToolCallId d) (traceOf (debugData s) e ! j)"
    by simp
  from assms(1) show ?thesis
    unfolding isToolUpdate_def
    by (elim disjE)
      (simp_all add: reduce_def setDebugData_def handleDebugToolExecutionInputs_def
        handleDebugToolExecutionFinished_def handleDebugToolExecutionError_def
        handleDebugToolLog_def toolUpdate_none [OF none] traceOf_update_same)
qed

lemma mostRecent_appended:
  "P x \<Longrightarrow> mostRecent P (t @ [x]) (length t)"
  by (auto simp: mostRecent_def)

lemma filter_none: "\<forall>it\<in>set t. \<not> P it \<Longrightarrow> filter P t = []"
  by (induction t) auto

lemma started_finished_trace:
  assumes "dataToolCallId fin = dataToolCallId st"
  shows "traceOf (debugData (reduce (reduce s (AgentDebug Debug_tool_execution_started st e))
            (AgentDebug Debug_tool_execution_finished fin e))) e =
         traceOf (debugData s) e @
           [ToolCall ((startedItem st)\<lparr>status := Complete, output' := dataValue fin\<rparr>)]"
proof -
  let ?s1 = "reduce s (AgentDebug Debug_tool_execution_started st e)"
  have t1: "traceOf (debugData ?s1) e = traceOf (debugData s) e @ [ToolCall (startedItem st)]"
    by (rule trace_started)
  have "isToolFor (dataToolCallId fin) (ToolCall (startedItem st))"
    using assms by (simp add: isToolFor_def startedItem_def)
  then have mr: "mostRecent (isToolFor (dataToolCallId fin)) (traceOf (debugData ?s1) e)
      (length (traceOf (debugData s) e))"
    unfolding t1 by (rule mostRecent_appended)
  have at: "traceOf (debugData ?s1) e ! length (traceOf (debugData s) e) = ToolCall (startedItem st)"
    unfolding t1 by simp
  show ?thesis
    unfolding trace_finished_hit [OF mr at] t1 by simp
qed

text \<open>
  Claim C3. A \<open>debug_tool_execution_started\<close> event followed by a
  \<open>debug_tool_execution_finished\<close> event with the same \<open>toolCallId\<close> in the same
  execution extends the execution's trace by one tool item, in status \<open>complete\<close> and
  with the finished event's value as output; when the trace held no tool item with
  that \<open>toolCallId\<close> before, this is the only tool item with that \<open>toolCallId\<close>
  afterwards. An inputs, finished, error or log event changes the most recent tool item
  with the event's \<open>toolCallId\<close> and nothing else of the trace (a log event whose
  \<open>value\<close> cannot be indexed changes nothing), and an update event that matches no
  item leaves the trace as it was.
\<close>

theorem tool_started_finished_updates:
  "(dataToolCallId fin = dataToolCallId st \<longrightarrow>
      traceOf (debugData (reduce (reduce s (AgentDebug Debug_tool_execution_started st e))
          (AgentDebug Debug_tool_execution_finished fin e))) e =
        traceOf (debugData s) e @
          [ToolCall ((startedItem st)\<lparr>status := Complete, output' := dataValue fin\<rparr>)]
      \<and> ((\<forall>it\<in>set (traceOf (debugData s) e). \<not> isToolFor (dataToolCallId st) it) \<longrightarrow>
           filter (isToolFor (dataToolCallId st))
             (traceOf (debugData (reduce (reduce s (AgentDebug Debug_tool_execution_started st e))
                (AgentDebug Debug_tool_execution_finished fin e))) e) =
             [ToolCall ((startedItem st)\<lparr>status := Complete, output' := dataValue fin\<rparr>)]))
   \<and> (mostRecent (isToolFor (dataToolCallId d)) (traceOf (debugData s) e) i
        \<and> traceOf (debugData s) e ! i = ToolCall t \<longrightarrow>
        traceOf (debugData (reduce s (AgentDebug Debug_tool_execution_inputs d e))) e =
          (traceOf (debugData s) e)[i := ToolCall (t\<lparr>inputs := dataValue d\<rparr>)]
        \<and> traceOf (debugData (reduce s (AgentDebug Debug_tool_execution_finished d e))) e =
          (traceOf (debugData s) e)[i := ToolCall (t\<lparr>status := Complete, output' := dataValue d\<rparr>)]
        \<and> traceOf (debugData (reduce s (AgentDebug Debug_tool_execution_error d e))) e =
          (traceOf (debugData s) e)[i := ToolCall (t\<lparr>status := Error, output' := dataValue d\<rparr>)]
        \<and> traceOf (debugData (reduce s (AgentDebug Debug_tool_log d e))) e =
          (case firstOfValue (dataValue d) of
             Inl err \<Rightarrow> traceOf (debugData s) e
           | Inr entry \<Rightarrow> (traceOf (debugData s) e)
               [i := ToolCall (t\<lparr>logs := Some ((case logs t of None \<Rightarrow> [] | Some l \<Rightarrow> l) @ [entry])\<rparr>)]))
   \<and> (isToolUpdate ty \<and> (\<forall>it\<in>set (traceOf (debugData s) e). \<not> isToolFor (dataToolCallId d) it) \<longrightarrow>
        traceOf (debugData (reduce s (AgentDebug ty d e))) e = traceOf (debugData s) e)"
proof (intro conjI impI)
  assume eq: "dataToolCallId fin = dataToolCallId st"
  show "traceOf (debugData (reduce (reduce s (AgentDebug Debug_tool_execution_started st e))
          (AgentDebug Debug_tool_execution_finished fin e))) e =
        traceOf (debugData s) e @
          [ToolCall ((startedItem st)\<lparr>status := Complete, output' := dataValue fin\<rparr>)]"
    by (rule started_finished_trace [OF eq])
next
  assume eq: "dataToolCallId fin = dataToolCallId st"
    and none: "\<forall>it\<in>set (traceOf (debugData s) e). \<not> isToolFor (dataToolCallId st) it"
  show "filter (isToolFor (dataToolCallId st))
             (traceOf (debugData (reduce (reduce s (AgentDebug Debug_tool_execution_started st e))
                (AgentDebug Debug_tool_execution_finished fin e))) e) =
             [ToolCall ((startedItem st)\<lparr>status := Complete, output' := dataValue fin\<rparr>)]"
    unfolding started_finished_trace [OF eq]
    by (simp add: filter_none [OF none] isToolFor_def startedItem_def)
next
  assume h: "mostRecent (isToolFor (dataToolCallId d)) (traceOf (debugData s) e) i
        \<and> traceOf (debugData s) e ! i = ToolCall t"
  then have mr: "mostRecent (isToolFor (dataToolCallId d)) (traceOf (debugData s) e) i"
    and at: "traceOf (debugData s) e ! i = ToolCall t" by simp_all
  show "traceOf (debugData (reduce s (AgentDebug Debug_tool_execution_inputs d e))) e =
          (traceOf (debugData s) e)[i := ToolCall (t\<lparr>inputs := dataValue d\<rparr>)]"
    by (rule trace_inputs_hit [OF mr at])
  show "traceOf (debugData (reduce s (AgentDebug Debug_tool_execution_finished d e))) e =
          (traceOf (debugData s) e)[i := ToolCall (t\<lparr>status := Complete, output' := dataValue d\<rparr>)]"
    by (rule trace_finished_hit [OF mr at])
  show "traceOf (debugData (reduce s (AgentDebug Debug_tool_execution_error d e))) e =
          (traceOf (debugData s) e)[i := ToolCall (t\<lparr>status := Error, output' := dataValue d\<rparr>)]"
    by (rule trace_error_hit [OF mr at])
  show "traceOf (debugData (reduce s (AgentDebug Debug_tool_log d e))) e =
          (case firstOfValue (dataValue d) of
             Inl err \<Rightarrow> traceOf (debugData s) e
           | Inr entry \<Rightarrow> (traceOf (debugData s) e)
               [i := ToolCall (t\<lparr>logs := Some ((case logs t of None \<Rightarrow> [] | Some l \<Rightarrow> l) @ [entry])\<rparr>)])"
    by (rule trace_log_hit [OF mr at])
next
  assume "isToolUpdate ty \<and> (\<forall>it\<in>set (traceOf (debugData s) e). \<not> isToolFor (dataToolCallId d) it)"
  then show "traceOf (debugData (reduce s (AgentDebug ty d e))) e = traceOf (debugData s) e"
    by (simp add: trace_update_none)
qed

text \<open>
  The theorem at concrete events: a started/finished pair on an empty trace, a log
  event for the first item of a two-item trace, and an error event without a target.
\<close>

theorem tool_started_finished_updates_witness:
  "traceOf (debugData (reduce (reduce (initialDebugState [])
       (AgentDebug Debug_tool_execution_started
          \<lparr>dataToolId = Some ''search'', dataToolCallId = Some ''call_1'', dataValue = None\<rparr> ''exec_1''))
       (AgentDebug Debug_tool_execution_finished
          \<lparr>dataToolId = None, dataToolCallId = Some ''call_1'', dataValue = Some (JStr ''ok'')\<rparr> ''exec_1'')))
     ''exec_1'' =
     [ToolCall \<lparr>toolId = ''search'', toolCallId = Some ''call_1'', status = Complete,
                 inputs = None, output' = Some (JStr ''ok''), logs = None\<rparr>]
   \<and> filter (isToolFor (Some ''call_1''))
       (traceOf (debugData (reduce (reduce (initialDebugState [])
         (AgentDebug Debug_tool_execution_started
            \<lparr>dataToolId = Some ''search'', dataToolCallId = Some ''call_1'', dataValue = None\<rparr> ''exec_1''))
         (AgentDebug Debug_tool_execution_finished
            \<lparr>dataToolId = None, dataToolCallId = Some ''call_1'', dataValue = Some (JStr ''ok'')\<rparr> ''exec_1'')))
       ''exec_1'') =
     [ToolCall \<lparr>toolId = ''search'', toolCallId = Some ''call_1'', status = Complete,
                 inputs = None, output' = Some (JStr ''ok''), logs = None\<rparr>]
   \<and> traceOf (debugData (reduce
         \<lparr>lastReasoningIndex = - 1, debugData = [(''exec_1'',
            [ToolCall \<lparr>toolId = ''search'', toolCallId = Some ''call_1'', status = Progress,
                        inputs = None, output' = None, logs = None\<rparr>, Handoff ''helper''])]\<rparr>
         (AgentDebug Debug_tool_log
            \<lparr>dataToolId = None, dataToolCallId = Some ''call_1'', dataValue = Some (JArr [JStr ''line''])\<rparr>
            ''exec_1''))) ''exec_1'' =
     [ToolCall \<lparr>toolId = ''search'', toolCallId = Some ''call_1'', status = Progress,
                 inputs = None, output' = None, logs = Some [Some (JStr ''line'')]\<rparr>, Handoff ''helper'']
   \<and> traceOf (debugData (reduce (initialDebugState [])
         (AgentDebug Debug_tool_execution_error
            \<lparr>dataToolId = None, dataToolCallId = Some ''call_1'', dataValue = Some (JStr ''boom'')\<rparr>
            ''exec_1''))) ''exec_1'' = []"
proof -
  let ?st = "\<lparr>dataToolId = Some ''search'', dataToolCallId = Some ''call_1'', dataValue = None\<rparr>"
  let ?fin = "\<lparr>dataToolId = None, dataToolCallId = Some ''call_1'', dataValue = Some (JStr ''ok'')\<rparr>"
  let ?log = "\<lparr>dataToolId = None, dataToolCallId = Some ''call_1'', dataValue = Some (JArr [JStr ''line''])\<rparr>"
  let ?err = "\<lparr>dataToolId = None, dataToolCallId = Some ''call_1'', dataValue = Some (JStr ''boom'')\<rparr>"
  let ?it = "\<lparr>toolId = ''search'', toolCallId = Some ''call_1'', status = Progress,
                        inputs = None, output' = None, logs = None\<rparr>"
  let ?s1 = "\<lparr>lastReasoningIndex = - 1, debugData = [(''exec_1'', [ToolCall ?it, Handoff ''helper''])]\<rparr>"
  have empty: "traceOf (debugData (initialDebugState [])) ''exec_1'' = []"
    by (simp add: traceOf_def initialDebugState_def)
  have t1: "traceOf (debugData ?s1) ''exec_1'' = [ToolCall ?it, Handoff ''helper'']"
    by (simp add: traceOf_def)
  have mr: "mostRecent (isToolFor (dataToolCallId ?log)) (traceOf (debugData ?s1) ''exec_1'') 0"
    unfolding t1 by (auto simp: mostRecent_def isToolFor_def less_Suc_eq)
  have upd: "isToolUpdate Debug_tool_execution_error"
    by (simp add: isToolUpdate_def)
  note a = tool_started_finished_updates
    [where fin = ?fin and st = ?st and s = "initialDebugState []" and e = "''exec_1''"
       and d = ?err and ty = Debug_tool_execution_error and i = 0 and t = ?it]
  note b = tool_started_finished_updates
    [where s = ?s1 and e = "''exec_1''" and d = ?log and i = 0 and t = ?it
       and fin = ?fin and st = ?st and ty = Debug_tool_log]
  from a empty upd have "traceOf (debugData (reduce (reduce (initialDebugState [])
       (AgentDebug Debug_tool_execution_started ?st ''exec_1''))
       (AgentDebug Debug_tool_execution_finished ?fin ''exec_1''))) ''exec_1'' =
       [ToolCall ((startedItem ?st)\<lparr>status := Complete, output' := dataValue ?fin\<rparr>)]
    \<and> filter (isToolFor (Some ''call_1''))
       (traceOf (debugData (reduce (reduce (initialDebugState [])
         (AgentDebug Debug_tool_execution_started ?st ''exec_1''))
         (AgentDebug Debug_tool_execution_finished ?fin ''exec_1''))) ''exec_1'') =
       [ToolCall ((startedItem ?st)\<lparr>status := Complete, output' := dataValue ?fin\<rparr>)]
    \<and> traceOf (debugData (reduce (initialDebugState [])
         (AgentDebug Debug_tool_execution_error ?err ''exec_1''))) ''exec_1'' = []"
    by (simp add: isToolFor_def startedItem_def)
  moreover from b mr t1 have "traceOf (debugData (reduce ?s1 (AgentDebug Debug_tool_log ?log ''exec_1''))) ''exec_1'' =
      [ToolCall (?it\<lparr>logs := Some [Some (JStr ''line'')]\<rparr>), Handoff ''helper'']"
    by (simp add: firstOfValue_def)
  ultimately show ?thesis
    by (simp add: startedItem_def isToolFor_def)
qed

text \<open>
  Claim C3 as stated speaks of every trace. When the trace already holds a tool item
  with the same \<open>toolCallId\<close> (here a call that ended in error and is started again),
  the started and finished events leave two tool items with that \<open>toolCallId\<close>, not
  exactly one.
\<close>

theorem tool_exactly_one_counterexample:
  "traceOf (debugData (foldl reduce (initialDebugState [])
       [AgentDebug Debug_tool_execution_started
          \<lparr>dataToolId = Some ''search'', dataToolCallId = Some ''call_1'', dataValue = None\<rparr> ''exec_1'',
        AgentDebug Debug_tool_execution_error
          \<lparr>dataToolId = None, dataToolCallId = Some ''call_1'', dataValue = Some (JStr ''timeout'')\<rparr> ''exec_1'',
        AgentDebug Debug_tool_execution_started
          \<lparr>dataToolId = Some ''search'', dataToolCallId = Some ''call_1'', dataValue = None\<rparr> ''exec_1'',
        AgentDebug Debug_tool_execution_finished
          \<lparr>dataToolId = None, dataToolCallId = Some ''call_1'', dataValue = Some (JStr ''ok'')\<rparr> ''exec_1'']))
     ''exec_1'' =
     [ToolCall \<lparr>toolId = ''search'', toolCallId = Some ''call_1'', status = Error,
                 inputs = None, output' = Some (JStr ''timeout''), logs = None\<rparr>,
      ToolCall \<lparr>toolId = ''search'', toolCallId = Some ''call_1'', status = Complete,
                 inputs = None, output' = Some (JStr ''ok''), logs = None\<rparr>]"
  by (simp add: reduce_def setDebugData_def handleDebugToolExecutionStarted_def
      handleDebugToolExecutionFinished_def handleDebugToolExecutionError_def toolUpdate_def
      traceOf_def initialDebugState_def)

lemma reasoning_step_fresh:
  assumes "lastReasoningIndex s < index"
  shows "reduce s (LLMReasoningDelta d index e) =
     \<lparr>lastReasoningIndex = index,
      debugData = AList.update e (traceOf (debugData s) e @ [Reasoning d]) (debugData s)\<rparr>"
  using assms by (simp add: reduce_def handleDebugReasoningStep_def Let_def)

lemma reasoning_step_reuse:
  assumes "\<not> lastReasoningIndex s < index"
    and "mostRecent isReasoning (traceOf (debugData s) e) k"
    and "traceOf (debugData s) e ! k = Reasoning r"
  shows "reduce s (LLMReasoningDelta d index e) =
     s\<lparr>debugData := AList.update e ((traceOf (debugData s) e)[k := Reasoning (r @ d)]) (debugData s)\<rparr>"
proof -
  from assms(2,3) have "reasoningLoop d (length (traceOf (debugData s) e)) (traceOf (debugData s) e) =
      (traceOf (debugData s) e)[k := Reasoning (r @ d)]"
    by (intro reasoningLoop_hit) (simp_all add: mostRecent_def)
  with assms(1) show ?thesis
    by (simp add: reduce_def handleDebugReasoningStep_def Let_def)
qed

lemma reasoning_step_dropped:
  assumes "\<not> lastReasoningIndex s < index"
    and "\<forall>it\<in>set (traceOf (debugData s) e). \<not> isReasoning it"
  shows "reduce s (LLMReasoningDelta d index e) =
     s\<lparr>debugData := AList.update e (traceOf (debugData s) e) (debugData s)\<rparr>"
proof -
  from assms(2) have "reasoningLoop d (length (traceOf (debugData s) e)) (traceOf (debugData s) e) =
      traceOf (debugData s) e"
    by (intro reasoningLoop_none) simp
  with assms(1) show ?thesis
    by (simp add: reduce_def handleDebugReasoningStep_def Let_def)
qed

lemma mostRecent_update:
  "mostRecent P t k \<Longrightarrow> P x \<Longrightarrow> mostRecent P (t[k := x]) k"
  by (auto simp: mostRecent_def)

text \<open>
  Claim C4. Two \<open>llm_reasoning_delta\<close> events with the same index, for the same
  execution, handled one after the other by one handler instance. When the index
  exceeds the last seen reasoning index, the first delta appends a new reasoning item
  holding its text and advances the cursor to the index, and the second delta adds its
  text to that same item. When the index does not exceed the cursor and the trace holds
  a reasoning item, both texts are added, in order, to the most recent reasoning item,
  and the cursor stays.
\<close>

theorem reasoning_deltas_same_index:
  "(lastReasoningIndex s < index \<longrightarrow>
      traceOf (debugData (reduce s (LLMReasoningDelta d1 index e))) e =
        traceOf (debugData s) e @ [Reasoning d1]
      \<and> lastReasoningIndex (reduce s (LLMReasoningDelta d1 index e)) = index
      \<and> traceOf (debugData (reduce (reduce s (LLMReasoningDelta d1 index e))
            (LLMReasoningDelta d2 index e))) e =
        traceOf (debugData s) e @ [Reasoning (d1 @ d2)]
      \<and> lastReasoningIndex (reduce (reduce s (LLMReasoningDelta d1 index e))
            (LLMReasoningDelta d2 index e)) = index)
   \<and> (\<not> lastReasoningIndex s < index
        \<and> mostRecent isReasoning (traceOf (debugData s) e) k
        \<and> traceOf (debugData s) e ! k = Reasoning r \<longrightarrow>
      traceOf (debugData (reduce (reduce s (LLMReasoningDelta d1 index e))
            (LLMReasoningDelta d2 index e))) e =
        (traceOf (debugData s) e)[k := Reasoning (r @ d1 @ d2)]
      \<and> lastReasoningIndex (reduce (reduce s (LLMReasoningDelta d1 index e))
            (LLMReasoningDelta d2 index e)) = lastReasoningIndex s)"
proof (intro conjI impI)
  assume fresh: "lastReasoningIndex s < index"
  let ?s1 = "reduce s (LLMReasoningDelta d1 index e)"
  let ?t = "traceOf (debugData s) e"
  have s1: "?s1 = \<lparr>lastReasoningIndex = index,
      debugData = AList.update e (?t @ [Reasoning d1]) (debugData s)\<rparr>"
    by (rule reasoning_step_fresh [OF fresh])
  show t1: "traceOf (debugData ?s1) e = ?t @ [Reasoning d1]"
    by (simp add: s1 traceOf_update_same)
  show i1: "lastReasoningIndex ?s1 = index"
    by (simp add: s1)
  have stale: "\<not> lastReasoningIndex ?s1 < index"
    by (simp add: i1)
  have mr: "mostRecent isReasoning (traceOf (debugData ?s1) e) (length ?t)"
    unfolding t1 by (auto simp: mostRecent_def isReasoning_def)
  have at: "traceOf (debugData ?s1) e ! length ?t = Reasoning d1"
    unfolding t1 by simp
  have s2: "reduce ?s1 (LLMReasoningDelta d2 index e) =
      ?s1\<lparr>debugData := AList.update e ((traceOf (debugData ?s1) e)[length ?t := Reasoning (d1 @ d2)])
        (debugData ?s1)\<rparr>"
    by (rule reasoning_step_reuse [OF stale mr at])
  show "traceOf (debugData (reduce ?s1 (LLMReasoningDelta d2 index e))) e = ?t @ [Reasoning (d1 @ d2)]"
    unfolding s2 by (simp add: traceOf_update_same t1)
  show "lastReasoningIndex (reduce ?s1 (LLMReasoningDelta d2 index e)) = index"
    unfolding s2 by (simp add: i1)
next
  assume h: "\<not> lastReasoningIndex s < index
        \<and> mostRecent isReasoning (traceOf (debugData s) e) k
        \<and> traceOf (debugData s) e ! k = Reasoning r"
  let ?s1 = "reduce s (LLMReasoningDelta d1 index e)"
  let ?t = "traceOf (debugData s) e"
  from h have stale: "\<not> lastReasoningIndex s < index"
    and mr: "mostRecent isReasoning ?t k" and at: "?t ! k = Reasoning r"
    by simp_all
  have s1: "?s1 = s\<lparr>debugData := AList.update e (?t[k := Reasoning (r @ d1)]) (debugData s)\<rparr>"
    by (rule reasoning_step_reuse [OF stale mr at])
  have t1: "traceOf (debugData ?s1) e = ?t[k := Reasoning (r @ d1)]"
    by (simp add: s1 traceOf_update_same)
  have stale1: "\<not> lastReasoningIndex ?s1 < index"
    using stale by (simp add: s1)
  have mr1: "mostRecent isReasoning (traceOf (debugData ?s1) e) k"
    unfolding t1 by (rule mostRecent_update [OF mr]) (simp add: isReasoning_def)
  have at1: "traceOf (debugData ?s1) e ! k = Reasoning (r @ d1)"
    unfolding t1 using mr by (simp add: mostRecent_def)
  have s2: "reduce ?s1 (LLMReasoningDelta d2 index e) =
      ?s1\<lparr>debugData := AList.update e ((traceOf (debugData ?s1) e)[k := Reasoning ((r @ d1) @ d2)])
        (debugData ?s1)\<rparr>"
    by (rule reasoning_step_reuse [OF stale1 mr1 at1])
  show "traceOf (debugData (reduce ?s1 (LLMReasoningDelta d2 index e))) e =
      ?t[k := Reasoning (r @ d1 @ d2)]"
    unfolding s2 by (simp add: traceOf_update_same t1)
  show "lastReasoningIndex (reduce ?s1 (LLMReasoningDelta d2 index e)) = lastReasoningIndex s"
    unfolding s2 by (simp add: s1)
qed

text \<open>
  The theorem on a new handler instance, and on a trace of two reasoning items whose
  cursor is already past the index.
\<close>

theorem reasoning_deltas_same_index_witness:
  "traceOf (debugData (reduce (reduce (initialDebugState [])
       (LLMReasoningDelta ''Let me '' 0 ''exec_1'')) (LLMReasoningDelta ''think'' 0 ''exec_1'')))
     ''exec_1'' = [Reasoning ''Let me think'']
   \<and> lastReasoningIndex (reduce (reduce (initialDebugState [])
       (LLMReasoningDelta ''Let me '' 0 ''exec_1'')) (LLMReasoningDelta ''think'' 0 ''exec_1'')) = 0
   \<and> traceOf (debugData (reduce (reduce
       \<lparr>lastReasoningIndex = 1, debugData = [(''exec_1'', [Reasoning ''a'', Reasoning ''b'', Handoff ''helper''])]\<rparr>
       (LLMReasoningDelta ''c'' 0 ''exec_1'')) (LLMReasoningDelta ''d'' 0 ''exec_1'')))
     ''exec_1'' = [Reasoning ''a'', Reasoning ''bcd'', Handoff ''helper'']"
proof -
  let ?s = "\<lparr>lastReasoningIndex = 1,
    debugData = [(''exec_1'', [Reasoning ''a'', Reasoning ''b'', Handoff ''helper''])]\<rparr>"
  have fresh: "lastReasoningIndex (initialDebugState []) < 0"
    by (simp add: initialDebugState_def)
  have empty: "traceOf (debugData (initialDebugState [])) ''exec_1'' = []"
    by (simp add: traceOf_def initialDebugState_def)
  have t: "traceOf (debugData ?s) ''exec_1'' = [Reasoning ''a'', Reasoning ''b'', Handoff ''helper'']"
    by (simp add: traceOf_def)
  have mr: "mostRecent isReasoning (traceOf (debugData ?s) ''exec_1'') 1"
    unfolding t by (auto simp: mostRecent_def isReasoning_def less_Suc_eq)
  note a = reasoning_deltas_same_index
    [where s = "initialDebugState []" and index = 0 and ?d1.0 = "''Let me ''" and ?d2.0 = "''think''"
       and e = "''exec_1''" and k = 0 and r = "''''"]
  note b = reasoning_deltas_same_index
    [where s = ?s and index = 0 and ?d1.0 = "''c''" and ?d2.0 = "''d''"
       and e = "''exec_1''" and k = 1 and r = "''b''"]
  from a fresh empty have "traceOf (debugData (reduce (reduce (initialDebugState [])
       (LLMReasoningDelta ''Let me '' 0 ''exec_1'')) (LLMReasoningDelta ''think'' 0 ''exec_1'')))
     ''exec_1'' = [Reasoning ''Let me think'']
   \<and> lastReasoningIndex (reduce (reduce (initialDebugState [])
       (LLMReasoningDelta ''Let me '' 0 ''exec_1'')) (LLMReasoningDelta ''think'' 0 ''exec_1'')) = 0"
    by simp
  moreover from b mr t have "traceOf (debugData (reduce (reduce ?s
       (LLMReasoningDelta ''c'' 0 ''exec_1'')) (LLMReasoningDelta ''d'' 0 ''exec_1'')))
     ''exec_1'' = [Reasoning ''a'', Reasoning ''bcd'', Handoff ''helper'']"
    by simp
  ultimately show ?thesis by simp
qed

text \<open>
  Claim C4 as stated covers every pair of deltas with one index. After a delta with
  index 5 for another execution, two deltas with index 0 for an execution without a
  reasoning item are not joined in a reasoning item: both texts are dropped.
\<close>

theorem reasoning_same_index_counterexample:
  "traceOf (debugData (reduce (reduce (reduce (initialDebugState [])
       (LLMReasoningDelta ''plan'' 5 ''exec_1''))
       (LLMReasoningDelta ''Let me '' 0 ''exec_2''))
       (LLMReasoningDelta ''think'' 0 ''exec_2''))) ''exec_2'' = []
   \<and> debugData (reduce (reduce (reduce (initialDebugState [])
       (LLMReasoningDelta ''plan'' 5 ''exec_1''))
       (LLMReasoningDelta ''Let me '' 0 ''exec_2''))
       (LLMReasoningDelta ''think'' 0 ''exec_2'')) =
     [(''exec_1'', [Reasoning ''plan'']), (''exec_2'', [])]"
  by (simp add: reduce_def handleDebugReasoningStep_def initialDebugState_def traceOf_def Let_def)

text \<open>
  Claim C10. A \<open>llm_reasoning_delta\<close> whose index does not exceed the last seen
  reasoning index, for an execution whose trace holds no reasoning item: the cursor
  and every trace stay as they were, no item is created and no item receives the text.
  The only change to the map is that the execution id becomes a key (bound to the
  trace it had, the empty one if it had none).
\<close>

theorem reasoning_delta_dropped:
  assumes "index \<le> lastReasoningIndex s"
    and "\<forall>it\<in>set (traceOf (debugData s) e). \<not> isReasoning it"
  shows "reduce s (LLMReasoningDelta delta index e) =
       s\<lparr>debugData := AList.update e (traceOf (debugData s) e) (debugData s)\<rparr>
     \<and> (\<forall>e'. traceOf (debugData (reduce s (LLMReasoningDelta delta index e))) e' =
          traceOf (debugData s) e')"
proof -
  from assms(1) have stale: "\<not> lastReasoningIndex s < index" by simp
  have eq: "reduce s (LLMReasoningDelta delta index e) =
       s\<lparr>debugData := AList.update e (traceOf (debugData s) e) (debugData s)\<rparr>"
    by (rule reasoning_step_dropped [OF stale assms(2)])
  have "traceOf (debugData (reduce s (LLMReasoningDelta delta index e))) e' =
          traceOf (debugData s) e'" for e'
    unfolding eq by (cases "e' = e") (simp_all add: traceOf_update_same traceOf_update_other)
  with eq show ?thesis by simp
qed

text \<open>
  The theorem for an execution with a trace and for one without an entry.
\<close>

theorem reasoning_delta_dropped_witness:
  "(0::int) \<le> lastReasoningIndex \<lparr>lastReasoningIndex = 2, debugData = [(''exec_1'', [Handoff ''helper''])]\<rparr>
   \<and> reduce \<lparr>lastReasoningIndex = 2, debugData = [(''exec_1'', [Handoff ''helper''])]\<rparr>
        (LLMReasoningDelta ''lost'' 0 ''exec_1'') =
      \<lparr>lastReasoningIndex = 2, debugData = [(''exec_1'', [Handoff ''helper''])]\<rparr>
   \<and> reduce \<lparr>lastReasoningIndex = 2, debugData = [(''exec_1'', [Handoff ''helper''])]\<rparr>
        (LLMReasoningDelta ''lost'' 0 ''exec_2'') =
      \<lparr>lastReasoningIndex = 2, debugData = [(''exec_1'', [Handoff ''helper'']), (''exec_2'', [])]\<rparr>"
proof -
  let ?s = "\<lparr>lastReasoningIndex = 2, debugData = [(''exec_1'', [Handoff ''helper''])]\<rparr>"
  have le: "0 \<le> lastReasoningIndex ?s" by simp
  have n1: "\<forall>it\<in>set (traceOf (debugData ?s) ''exec_1''). \<not> isReasoning it"
    by (simp add: traceOf_def isReasoning_def)
  have n2: "\<forall>it\<in>set (traceOf (debugData ?s) ''exec_2''). \<not> isReasoning it"
    by (simp add: traceOf_def isReasoning_def)
  from reasoning_delta_dropped [OF le n1, of "''lost''"] reasoning_delta_dropped [OF le n2, of "''lost''"]
  show ?thesis
    by (simp add: traceOf_def)
qed

section \<open>What an operation leaves alone\<close>

lemma agentSessionsOf_update:
  "agentSessionsOf (AList.update a x prev) b = (if b = a then x else agentSessionsOf prev b)"
  by (simp add: agentSessionsOf_def update_conv')

lemma map_of_update_other: "b \<noteq> a \<Longrightarrow> map_of (AList.update a x prev) b = map_of prev b"
  by (simp add: update_conv')

lemma syncSession_other:
  "b \<noteq> agentId \<Longrightarrow> map_of (syncSession agentId cur ref now upd prev) b = map_of prev b"
  by (simp add: syncSession_def Let_def map_of_update_other split: option.splits)

lemma applyOp_other:
  "b \<noteq> agentId \<Longrightarrow> map_of (allSessions (applyOp agentId st op)) b = map_of (allSessions st) b"
  by (cases op)
    (simp_all add: sync_def switchSession_def deleteSession_def createSessionFromResponse_def
      syncSession_other map_of_update_other Let_def)

lemma toolUpdate_other:
  assumes "toolUpdate f d e prev = Inr m" and "e' \<noteq> e"
  shows "map_of m e' = map_of prev e'"
proof (cases "toolLoop f (dataToolCallId d) (length (traceOf prev e)) (traceOf prev e)")
  case (Inl err)
  with assms(1) show ?thesis by (simp add: toolUpdate_def Let_def)
next
  case (Inr u)
  with assms(1) have "m = AList.update e u prev" by (simp add: toolUpdate_def Let_def)
  with assms(2) show ?thesis by (simp add: map_of_update_other)
qed

lemma setDebugData_tool_other:
  assumes "e' \<noteq> e"
  shows "map_of (debugData (case setDebugData (toolUpdate f d e) s of Inl x \<Rightarrow> s | Inr s' \<Rightarrow> s')) e' =
    map_of (debugData s) e'"
proof (cases "toolUpdate f d e (debugData s)")
  case (Inl err)
  then show ?thesis by (simp add: setDebugData_def)
next
  case (Inr m)
  from toolUpdate_other [OF Inr assms] Inr show ?thesis by (simp add: setDebugData_def)
qed

lemma reduce_other:
  assumes "eventExecutionId ev \<noteq> Some e'"
  shows "map_of (debugData (reduce s ev)) e' = map_of (debugData s) e'"
proof (cases ev)
  case (LLMTextDelta x e)
  then show ?thesis by (simp add: reduce_def)
next
  case (LLMReasoningDelta x i e)
  with assms show ?thesis
    by (simp add: reduce_def handleDebugReasoningStep_def Let_def map_of_update_other)
next
  case (AgentHandoff x e)
  with assms show ?thesis
    by (simp add: reduce_def setDebugData_def handleAgentHandoff_def map_of_update_other)
next
  case (AgentDebug ty d e)
  with assms have ne: "e' \<noteq> e" by auto
  show ?thesis
  proof (cases ty)
    case Debug_tool_execution_started
    with AgentDebug ne show ?thesis
      by (simp add: reduce_def setDebugData_def handleDebugToolExecutionStarted_def map_of_update_other)
  next
    case Debug_tool_execution_inputs
    with AgentDebug show ?thesis
      using setDebugData_tool_other [OF ne]
      by (simp add: reduce_def handleDebugToolExecutionInputs_def [abs_def])
  next
    case Debug_tool_execution_finished
    with AgentDebug show ?thesis
      using setDebugData_tool_other [OF ne]
      by (simp add: reduce_def handleDebugToolExecutionFinished_def [abs_def])
  next
    case Debug_tool_execution_error
    with AgentDebug show ?thesis
      using setDebugData_tool_other [OF ne]
      by (simp add: reduce_def handleDebugToolExecutionError_def [abs_def])
  next
    case Debug_tool_log
    with AgentDebug show ?thesis
      using setDebugData_tool_other [OF ne]
      by (simp add: reduce_def handleDebugToolLog_def [abs_def])
  next
    case Debug_unlisted
    with AgentDebug show ?thesis by (simp add: reduce_def)
  qed
next
  case OtherEvent
  then show ?thesis by (simp add: reduce_def)
qed

text \<open>
  Claim C9. A session repository operation of one agent id (\<open>sync\<close>,
  \<open>switchSession\<close>, \<open>deleteSession\<close>, \<open>createSessionFromResponse\<close>) leaves the
  session map of every other agent id as it was, and an event handled by the trace
  reducer leaves the trace of every execution id other than its own as it was.
\<close>

theorem other_agents_and_executions_unchanged:
  "(b \<noteq> agentId \<longrightarrow> map_of (allSessions (applyOp agentId st op)) b = map_of (allSessions st) b)
   \<and> (eventExecutionId ev \<noteq> Some e' \<longrightarrow> map_of (debugData (reduce s ev)) e' = map_of (debugData s) e')"
  by (simp add: applyOp_other reduce_other)

text \<open>
  The theorem for two agents and two executions: deleting a session of agent \<open>a1\<close>
  keeps the sessions of \<open>a2\<close>, a reasoning delta of \<open>exec_1\<close> keeps the trace of
  \<open>exec_2\<close>.
\<close>

theorem other_agents_and_executions_unchanged_witness:
  "map_of (allSessions (applyOp ''a1''
       (initialHook\<lparr>currentSessionId := Some ''sess_1'',
          allSessions :=
            [(''a1'', [(''sess_1'', \<lparr>sessId = Some ''sess_1'', createdAt = Some 10, updatedAt = 20,
                                    sessMessages = [], sessName = Some ''New Chat''\<rparr>)]),
             (''a2'', [(''sess_9'', \<lparr>sessId = Some ''sess_9'', createdAt = Some 11, updatedAt = 12,
                                    sessMessages = [], sessName = Some ''Other''\<rparr>)])]\<rparr>)
       (DeleteSession ''sess_1''))) ''a2'' =
     Some [(''sess_9'', \<lparr>sessId = Some ''sess_9'', createdAt = Some 11, updatedAt = 12,
                          sessMessages = [], sessName = Some ''Other''\<rparr>)]
   \<and> map_of (debugData (reduce
        \<lparr>lastReasoningIndex = - 1,
           debugData = [(''exec_1'', [Handoff ''helper'']), (''exec_2'', [Reasoning ''plan''])]\<rparr>
        (LLMReasoningDelta ''more'' 0 ''exec_1''))) ''exec_2'' = Some [Reasoning ''plan'']"
proof -
  let ?st = "initialHook\<lparr>currentSessionId := Some ''sess_1'',
          allSessions :=
            [(''a1'', [(''sess_1'', \<lparr>sessId = Some ''sess_1'', createdAt = Some 10, updatedAt = 20,
                                    sessMessages = [], sessName = Some ''New Chat''\<rparr>)]),
             (''a2'', [(''sess_9'', \<lparr>sessId = Some ''sess_9'', createdAt = Some 11, updatedAt = 12,
                                    sessMessages = [], sessName = Some ''Other''\<rparr>)])]\<rparr>"
  let ?s = "\<lparr>lastReasoningIndex = - 1,
           debugData = [(''exec_1'', [Handoff ''helper'']), (''exec_2'', [Reasoning ''plan''])]\<rparr>"
  have ne: "''a2'' \<noteq> ''a1''" by simp
  have ne': "eventExecutionId (LLMReasoningDelta ''more'' 0 ''exec_1'') \<noteq> Some ''exec_2''" by simp
  from other_agents_and_executions_unchanged
    [where b = "''a2''" and agentId = "''a1''" and st = ?st and op = "DeleteSession ''sess_1''"
       and ev = "LLMReasoningDelta ''more'' 0 ''exec_1''" and e' = "''exec_2''" and s = ?s]
    ne ne'
  show ?thesis by (simp add: initialHook_def)
qed

section \<open>Properties of the session repository\<close>

lemma noTemporary_update:
  assumes "noTemporary prev" and "map_of x TEMPORARY_SESSION_ID = None"
  shows "noTemporary (AList.update a x prev)"
  using assms by (simp add: noTemporary_def agentSessionsOf_update)

lemma noTemporary_agent: "noTemporary prev \<Longrightarrow> map_of (agentSessionsOf prev a) TEMPORARY_SESSION_ID = None"
  by (simp add: noTemporary_def)

lemma syncSession_noTemporary:
  assumes "noTemporary prev"
  shows "noTemporary (syncSession agentId cur ref now upd prev)"
proof (cases "falsy cur \<or> cur = Some TEMPORARY_SESSION_ID")
  case True
  with assms show ?thesis by (auto simp: syncSession_def falsy_def)
next
  case False
  then obtain sid where cur: "cur = Some sid" and ne: "sid \<noteq> []" "sid \<noteq> TEMPORARY_SESSION_ID"
    by (cases cur) (auto simp: falsy_def)
  have "map_of (AList.update sid v (agentSessionsOf prev agentId)) TEMPORARY_SESSION_ID = None" for v
    using ne noTemporary_agent [OF assms, of agentId] by (simp add: update_conv')
  with cur ne show ?thesis
    by (simp add: syncSession_def Let_def noTemporary_update [OF assms])
qed

lemma deleteSession_noTemporary:
  assumes "noTemporary (allSessions st)"
  shows "noTemporary (allSessions (deleteSession agentId sessionId st))"
proof -
  have "map_of (AList.delete sessionId (agentSessionsOf (allSessions st) agentId)) TEMPORARY_SESSION_ID = None"
    using noTemporary_agent [OF assms, of agentId] by (simp add: delete_conv')
  from noTemporary_update [OF assms this] assms show ?thesis
    by (simp add: deleteSession_def Let_def)
qed

lemma applyOp_noTemporary:
  assumes "noTemporary (allSessions st)" and "\<not> createsTemporary op"
  shows "noTemporary (allSessions (applyOp agentId st op))"
proof (cases op)
  case (Sync upd now)
  with assms(1) show ?thesis by (simp add: sync_def syncSession_noTemporary)
next
  case (SwitchSession sid)
  with assms(1) show ?thesis by (simp add: switchSession_def)
next
  case (DeleteSession sid)
  with assms(1) show ?thesis by (simp add: deleteSession_noTemporary)
next
  case (CreateSessionFromResponse sid name msgs now)
  with assms(2) have ne: "sid \<noteq> TEMPORARY_SESSION_ID" by (simp add: createsTemporary_def)
  have "map_of (AList.update sid v (agentSessionsOf (allSessions st) agentId)) TEMPORARY_SESSION_ID = None" for v
    using ne noTemporary_agent [OF assms(1), of agentId] by (simp add: update_conv')
  with CreateSessionFromResponse show ?thesis
    by (simp add: createSessionFromResponse_def noTemporary_update [OF assms(1)])
qed

lemma applyOps_noTemporary:
  "noTemporary (allSessions st) \<Longrightarrow> \<forall>op\<in>set ops. \<not> createsTemporary op \<Longrightarrow>
   noTemporary (allSessions (foldl (applyOp agentId) st ops))"
proof (induction ops arbitrary: st)
  case Nil
  then show ?case by simp
next
  case (Cons op ops)
  from Cons.prems have "noTemporary (allSessions (applyOp agentId st op))"
    by (simp add: applyOp_noTemporary)
  with Cons.prems Cons.IH show ?case by simp
qed

lemma sync_noop:
  "falsy (currentSessionId st) \<or> currentSessionId st = Some TEMPORARY_SESSION_ID \<Longrightarrow>
   sync agentId upd now st = st"
  by (auto simp: sync_def syncSession_def falsy_def)

text \<open>
  Claim C6. \<open>switchSession\<close> without an argument sets the current session id to the
  temporary id; \<open>sync\<close> changes nothing while the current session id is the
  temporary id or falsy; and when no session is stored under the temporary id, none is
  after any sequence of repository operations in which \<open>createSessionFromResponse\<close>
  is never called with the temporary id.
\<close>

theorem temporary_session_never_persisted:
  "currentSessionId (switchSession None st) = Some TEMPORARY_SESSION_ID
   \<and> (falsy (currentSessionId st) \<or> currentSessionId st = Some TEMPORARY_SESSION_ID \<longrightarrow>
        sync agentId updatedMessages now st = st)
   \<and> (noTemporary (allSessions st) \<and> (\<forall>op\<in>set ops. \<not> createsTemporary op) \<longrightarrow>
        noTemporary (allSessions (foldl (applyOp agentId) st ops)))"
  by (simp add: switchSession_def sync_noop applyOps_noTemporary)

text \<open>
  The theorem on a sequence that syncs a temporary session, creates and fills a
  session, returns to the temporary session, syncs and deletes.
\<close>

theorem temporary_session_never_persisted_witness:
  "currentSessionId (switchSession None (initialHook\<lparr>currentSessionId := Some ''sess_1''\<rparr>)) =
     Some TEMPORARY_SESSION_ID
   \<and> sync ''a1'' (Some [(0, \<lparr>role = User, content = ''hello'', executionId = Some ''1000''\<rparr>)]) 1000
        initialHook = initialHook
   \<and> noTemporary (allSessions (foldl (applyOp ''a1'') initialHook
        [Sync None 1000,
         CreateSessionFromResponse ''sess_1'' ''New Chat'' [] 1001,
         SwitchSession (Some ''sess_1''),
         Sync (Some [(0, \<lparr>role = User, content = ''hello'', executionId = Some ''1000''\<rparr>)]) 1002,
         SwitchSession None,
         Sync None 1003,
         DeleteSession ''sess_1'']))"
proof -
  let ?ops = "[Sync None 1000,
         CreateSessionFromResponse ''sess_1'' ''New Chat'' [] 1001,
         SwitchSession (Some ''sess_1''),
         Sync (Some [(0, \<lparr>role = User, content = ''hello'', executionId = Some ''1000''\<rparr>)]) 1002,
         SwitchSession None,
         Sync None 1003,
         DeleteSession ''sess_1'']"
  have h1: "currentSessionId initialHook = Some TEMPORARY_SESSION_ID"
    by (simp add: initialHook_def)
  have h2: "noTemporary (allSessions initialHook)"
    by (simp add: initialHook_def noTemporary_def agentSessionsOf_def)
  have h3: "\<forall>op\<in>set ?ops. \<not> createsTemporary op"
    by (simp add: createsTemporary_def TEMPORARY_SESSION_ID_def)
  from temporary_session_never_persisted
    [where st = "initialHook\<lparr>currentSessionId := Some ''sess_1''\<rparr>"]
  have a: "currentSessionId (switchSession None (initialHook\<lparr>currentSessionId := Some ''sess_1''\<rparr>)) =
     Some TEMPORARY_SESSION_ID" by simp
  from temporary_session_never_persisted
    [where st = initialHook and agentId = "''a1''" and ops = ?ops and now = 1000
       and updatedMessages = "Some [(0, \<lparr>role = User, content = ''hello'', executionId = Some ''1000''\<rparr>)]"]
    h1 h2 h3
  have b: "sync ''a1'' (Some [(0, \<lparr>role = User, content = ''hello'', executionId = Some ''1000''\<rparr>)]) 1000
        initialHook = initialHook
     \<and> noTemporary (allSessions (foldl (applyOp ''a1'') initialHook ?ops))"
    by simp
  from a b show ?thesis by simp
qed

text \<open>
  Claim C6 as stated speaks of every sequence of repository operations.
  \<open>createSessionFromResponse\<close> stores a session under whatever id it is given, the
  temporary id included; \<open>onopen\<close> gives it the value of the session-id response
  header, so a server that answers the first request with \<open>sess_temp\<close> (the id the
  request itself carries) gets a session stored under the temporary id.
\<close>

theorem temporary_session_persisted_counterexample:
  "map_of (agentSessionsOf (allSessions (foldl (applyOp ''a1'') initialHook
       [CreateSessionFromResponse TEMPORARY_SESSION_ID ''New Chat'' [] 1000])) ''a1'')
     TEMPORARY_SESSION_ID =
   Some \<lparr>sessId = Some TEMPORARY_SESSION_ID, createdAt = Some 1000, updatedAt = 1000,
         sessMessages = [], sessName = Some ''New Chat''\<rparr>
   \<and> onopen ''a1''
       \<lparr>respStatus = 200, sessionIdHeader = Some ''sess_temp'', sessionNameHeader = None,
          executionIdHeader = None\<rparr> 1000 initialHook =
     Inr (initialHook\<lparr>allSessions := [(''a1'', [(''sess_temp'',
            \<lparr>sessId = Some ''sess_temp'', createdAt = Some 1000, updatedAt = 1000,
               sessMessages = [], sessName = Some ''New Chat''\<rparr>)])]\<rparr>)"
  by (simp add: initialHook_def createSessionFromResponse_def agentSessionsOf_def onopen_def
      falsy_def TEMPORARY_SESSION_ID_def DEFAULT_SESSION_NAME_def Let_def)

lemma toString_1000: "toString 1000 = ''1000''"
  by (simp add: toString_def toStringNat.simps digitChar_def)

lemma hd_sort_key:
  assumes "xs \<noteq> []"
  shows "hd (sort_key f xs) \<in> set xs \<and> (\<forall>y\<in>set xs. f (hd (sort_key f xs)) \<le> f y)"
proof -
  let ?ys = "sort_key f xs"
  have ne: "?ys \<noteq> []" using assms by (metis length_sort list.size(3) length_0_conv)
  have mem: "hd ?ys \<in> set xs" using ne by (metis hd_in_set set_sort)
  have srt: "sorted (map f ?ys)" by (rule sorted_sort_key)
  have "f (hd ?ys) \<le> f y" if "y \<in> set xs" for y
  proof -
    from that have "y \<in> set ?ys" by simp
    with ne srt show ?thesis
      by (cases ?ys) auto
  qed
  with mem show ?thesis by simp
qed

text \<open>
  \<open>deleteSession\<close> on a repository in which every session is stored under its own
  \<open>id\<close>: nothing happens for the temporary or an empty id; otherwise the session is
  removed, a current session id that is not the deleted one stays, and a deleted
  current session is replaced by a remaining session with the greatest \<open>updatedAt\<close>,
  or by the temporary id when none remains. The current session id is never the deleted
  id afterwards, whatever the repository holds.
\<close>

lemma remaining_is_delete:
  "\<forall>(k, s)\<in>set m. sessId s = Some k \<Longrightarrow>
   filter (\<lambda>s. sessId s \<noteq> Some sid) (map snd m) = map snd (AList.delete sid m)"
  by (induction m) (auto simp: AList.delete_eq)

lemma deleteSession_noop:
  "sessionId = [] \<or> sessionId = TEMPORARY_SESSION_ID \<Longrightarrow> deleteSession agentId sessionId st = st"
  by (auto simp: deleteSession_def)

lemma deleteSession_sessions:
  assumes "sessionId \<noteq> []" and "sessionId \<noteq> TEMPORARY_SESSION_ID"
  shows "agentSessionsOf (allSessions (deleteSession agentId sessionId st)) agentId =
     AList.delete sessionId (agentSessionsOf (allSessions st) agentId)"
  using assms by (simp add: deleteSession_def Let_def agentSessionsOf_update)

lemma deleteSession_other_current:
  assumes "currentSessionId st \<noteq> Some sessionId"
  shows "currentSessionId (deleteSession agentId sessionId st) = currentSessionId st"
  using assms by (auto simp: deleteSession_def Let_def)

lemma deleteSession_current:
  assumes "sessionId \<noteq> []" and "sessionId \<noteq> TEMPORARY_SESSION_ID"
    and "currentSessionId st = Some sessionId"
  shows "currentSessionId (deleteSession agentId sessionId st) =
     (let remainingSessions = filter (\<lambda>s. sessId s \<noteq> Some sessionId)
            (map snd (agentSessionsOf (allSessions st) agentId))
      in if remainingSessions = [] then Some TEMPORARY_SESSION_ID
         else sessId (hd (sortByUpdatedAtDesc remainingSessions)))"
  using assms by (simp add: deleteSession_def Let_def)

lemma deleteSession_never_deleted_id:
  assumes "sessionId \<noteq> []" and "sessionId \<noteq> TEMPORARY_SESSION_ID"
  shows "currentSessionId (deleteSession agentId sessionId st) \<noteq> Some sessionId"
proof (cases "currentSessionId st = Some sessionId")
  case False
  then show ?thesis by (simp add: deleteSession_other_current)
next
  case True
  let ?r = "filter (\<lambda>s. sessId s \<noteq> Some sessionId) (map snd (agentSessionsOf (allSessions st) agentId))"
  show ?thesis
  proof (cases "?r = []")
    case True
    with assms \<open>currentSessionId st = Some sessionId\<close> show ?thesis
      by (simp add: deleteSession_current Let_def)
  next
    case False
    then have "hd (sortByUpdatedAtDesc ?r) \<in> set ?r"
      unfolding sortByUpdatedAtDesc_def using hd_sort_key by blast
    then have "sessId (hd (sortByUpdatedAtDesc ?r)) \<noteq> Some sessionId" by simp
    with False assms \<open>currentSessionId st = Some sessionId\<close> show ?thesis
      by (simp add: deleteSession_current Let_def)
  qed
qed

lemma deleteSession_reselects:
  assumes ne: "sessionId \<noteq> []" "sessionId \<noteq> TEMPORARY_SESSION_ID"
    and cur: "currentSessionId st = Some sessionId"
    and keyed: "keyedById (agentSessionsOf (allSessions st) agentId)"
  shows "if agentSessionsOf (allSessions (deleteSession agentId sessionId st)) agentId = []
     then currentSessionId (deleteSession agentId sessionId st) = Some TEMPORARY_SESSION_ID
     else (\<exists>k s. currentSessionId (deleteSession agentId sessionId st) = Some k
            \<and> map_of (agentSessionsOf (allSessions (deleteSession agentId sessionId st)) agentId) k = Some s
            \<and> (\<forall>(k', s')\<in>set (agentSessionsOf (allSessions (deleteSession agentId sessionId st)) agentId).
                  updatedAt s' \<le> updatedAt s))"
proof -
  let ?m = "agentSessionsOf (allSessions st) agentId"
  let ?m' = "AList.delete sessionId ?m"
  let ?st' = "deleteSession agentId sessionId st"
  from keyed have ids: "\<forall>(k, s)\<in>set ?m. sessId s = Some k" and dist: "distinct (map fst ?m)"
    by (simp_all add: keyedById_def)
  have m': "agentSessionsOf (allSessions ?st') agentId = ?m'"
    by (rule deleteSession_sessions [OF ne])
  have rem: "filter (\<lambda>s. sessId s \<noteq> Some sessionId) (map snd ?m) = map snd ?m'"
    by (rule remaining_is_delete [OF ids])
  have c: "currentSessionId ?st' =
      (if ?m' = [] then Some TEMPORARY_SESSION_ID else sessId (hd (sortByUpdatedAtDesc (map snd ?m'))))"
    using deleteSession_current [OF ne cur, of agentId] by (simp add: rem Let_def)
  show ?thesis
  proof (cases "?m' = []")
    case True
    with c m' show ?thesis by simp
  next
    case False
    let ?s = "hd (sortByUpdatedAtDesc (map snd ?m'))"
    from False have nonempty: "map snd ?m' \<noteq> []" by simp
    from hd_sort_key [OF nonempty, of "\<lambda>s. - updatedAt s"]
    have mem: "?s \<in> set (map snd ?m')" and top: "\<forall>y\<in>set (map snd ?m'). updatedAt y \<le> updatedAt ?s"
      by (simp_all add: sortByUpdatedAtDesc_def)
    from mem obtain k where k: "(k, ?s) \<in> set ?m'" by auto
    then have "(k, ?s) \<in> set ?m" by (auto simp: AList.delete_eq)
    with ids have sid: "sessId ?s = Some k" by auto
    from dist have "distinct (map fst ?m')" by (rule distinct_delete)
    with k have look: "map_of ?m' k = Some ?s" by simp
    from top have all: "\<forall>(k', s')\<in>set ?m'. updatedAt s' \<le> updatedAt ?s" by force
    from False c sid have "currentSessionId ?st' = Some k" by simp
    with look all False show ?thesis
      unfolding m' by auto
  qed
qed

text \<open>
  Claim C5. The claim fails on a session record that \<open>sync\<close> has created:
  \<open>switchSession\<close> to an id without a session, then a message (which syncs), then
  \<open>deleteSession\<close> of that id. The record \<open>sync\<close> stored has no \<open>id\<close> field, so the
  filter \<open>s.id !== sessionId\<close> keeps it among the remaining sessions and the current
  session id becomes its \<open>id\<close>, which is \<open>undefined\<close>, although no session remains.
\<close>

theorem deleteSession_of_synced_unknown_session:
  "deleteSession ''a1'' ''foo''
     (addOptimisticMessage ''a1'' ''hi'' 1000 (switchSession (Some ''foo'') initialHook)) =
   \<lparr>messages = [(0, \<lparr>role = User, content = ''hi'', executionId = Some ''1000''\<rparr>)],
    inProgress = False, currentSessionId = None, allSessions = [(''a1'', [])],
    debug = \<lparr>lastReasoningIndex = - 1, debugData = []\<rparr>, nextAddr = 1\<rparr>"
  by (simp add: deleteSession_def addOptimisticMessage_def appendUserMessage_def newUserMessage_def
      switchSession_def initialHook_def initialDebugState_def syncSession_def agentSessionsOf_def
      sortByUpdatedAtDesc_def TEMPORARY_SESSION_ID_def toString_1000 Let_def)

section \<open>Properties of the stream consumer\<close>

lemma onTextDelta_agent:
  assumes "messages st \<noteq> []" and "role (snd (last (messages st))) = Agent"
  shows "messages (onTextDelta agentId d e now st) =
     butlast (messages st) @
       [(nextAddr st, (snd (last (messages st)))\<lparr>content := content (snd (last (messages st))) @ d\<rparr>)]"
  using assms by (simp add: onTextDelta_def Let_def)

lemma onTextDelta_other:
  assumes "messages st = [] \<or> role (snd (last (messages st))) = User"
  shows "messages (onTextDelta agentId d e now st) =
     messages st @ [(nextAddr st, \<lparr>role = Agent, content = d, executionId = Some e\<rparr>)]"
  using assms by (auto simp: onTextDelta_def Let_def)

lemma deliverText_Cons:
  "deliverText agentId e ((d, now) # rest) st = deliverText agentId e rest (onTextDelta agentId d e now st)"
  by (simp add: deliverText_def)

lemma deliverText_agent:
  "messages st \<noteq> [] \<Longrightarrow> role (snd (last (messages st))) = Agent \<Longrightarrow>
   map snd (messages (deliverText agentId e deltas st)) =
     map snd (butlast (messages st)) @
       [(snd (last (messages st)))\<lparr>content := content (snd (last (messages st))) @ concat (map fst deltas)\<rparr>]"
proof (induction deltas arbitrary: st)
  case Nil
  have "map snd (messages st) = map snd (butlast (messages st) @ [last (messages st)])"
    using Nil.prems(1) by simp
  then show ?case by (simp add: deliverText_def)
next
  case (Cons p rest)
  obtain d now where p: "p = (d, now)" by (cases p)
  let ?st1 = "onTextDelta agentId d e now st"
  have m1: "messages ?st1 = butlast (messages st) @
       [(nextAddr st, (snd (last (messages st)))\<lparr>content := content (snd (last (messages st))) @ d\<rparr>)]"
    by (rule onTextDelta_agent [OF Cons.prems])
  have ne: "messages ?st1 \<noteq> []" and ag: "role (snd (last (messages ?st1))) = Agent"
    using Cons.prems(2) by (simp_all add: m1)
  from Cons.IH [OF ne ag] show ?case
    by (simp add: p deliverText_Cons m1)
qed

text \<open>
  Claim C1. A non-empty sequence of \<open>llm_text_delta\<close> frames with one execution id,
  with nothing else touching the transcript in between. When the transcript is empty or
  ends with a user message, the final transcript is the earlier one followed by exactly
  one agent message, whose content is the concatenation of the payloads in arrival
  order and which carries the execution id. When the transcript ends with an agent
  message, no message is added: the payloads are appended, in order, to the content of
  that message.
\<close>

theorem text_deltas_concatenate:
  "deltas \<noteq> [] \<longrightarrow>
     (messages st = [] \<or> role (snd (last (messages st))) = User \<longrightarrow>
        map snd (messages (deliverText agentId execId deltas st)) =
          map snd (messages st) @
            [\<lparr>role = Agent, content = concat (map fst deltas), executionId = Some execId\<rparr>])
   \<and> (messages st \<noteq> [] \<and> role (snd (last (messages st))) = Agent \<longrightarrow>
        map snd (messages (deliverText agentId execId deltas st)) =
          map snd (butlast (messages st)) @
            [(snd (last (messages st)))
               \<lparr>content := content (snd (last (messages st))) @ concat (map fst deltas)\<rparr>])"
proof (intro impI conjI)
  assume ne: "deltas \<noteq> []" and usr: "messages st = [] \<or> role (snd (last (messages st))) = User"
  from ne obtain d now rest where deltas: "deltas = (d, now) # rest"
    by (cases deltas) auto
  let ?st1 = "onTextDelta agentId d execId now st"
  have m1: "messages ?st1 =
      messages st @ [(nextAddr st, \<lparr>role = Agent, content = d, executionId = Some execId\<rparr>)]"
    by (rule onTextDelta_other [OF usr])
  have ne1: "messages ?st1 \<noteq> []" and ag: "role (snd (last (messages ?st1))) = Agent"
    by (simp_all add: m1)
  from deliverText_agent [OF ne1 ag, of agentId execId rest]
  show "map snd (messages (deliverText agentId execId deltas st)) =
          map snd (messages st) @
            [\<lparr>role = Agent, content = concat (map fst deltas), executionId = Some execId\<rparr>]"
    by (simp add: deltas deliverText_Cons m1)
next
  assume "messages st \<noteq> [] \<and> role (snd (last (messages st))) = Agent"
  then show "map snd (messages (deliverText agentId execId deltas st)) =
          map snd (butlast (messages st)) @
            [(snd (last (messages st)))
               \<lparr>content := content (snd (last (messages st))) @ concat (map fst deltas)\<rparr>]"
    by (simp add: deliverText_agent)
qed

text \<open>
  The theorem for two deltas after a user message, and for a delta that arrives when
  the transcript ends with an agent message.
\<close>

theorem text_deltas_concatenate_witness:
  "map snd (messages (deliverText ''a1'' ''exec_1'' [(''Hi '', 1002), (''there'', 1003)]
       (initialHook\<lparr>messages := [(0, \<lparr>role = User, content = ''hello'', executionId = Some ''exec_1''\<rparr>)],
                     nextAddr := 1\<rparr>))) =
     [\<lparr>role = User, content = ''hello'', executionId = Some ''exec_1''\<rparr>,
      \<lparr>role = Agent, content = ''Hi there'', executionId = Some ''exec_1''\<rparr>]
   \<and> map snd (messages (deliverText ''a1'' ''exec_2'' [(''More'', 1005)]
       (initialHook\<lparr>messages := [(0, \<lparr>role = User, content = ''hello'', executionId = Some ''exec_1''\<rparr>),
                                   (2, \<lparr>role = Agent, content = ''Hi there'', executionId = Some ''exec_1''\<rparr>)],
                     nextAddr := 3\<rparr>))) =
     [\<lparr>role = User, content = ''hello'', executionId = Some ''exec_1''\<rparr>,
      \<lparr>role = Agent, content = ''Hi thereMore'', executionId = Some ''exec_1''\<rparr>]"
proof -
  let ?u = "(0, \<lparr>role = User, content = ''hello'', executionId = Some ''exec_1''\<rparr>)"
  let ?a = "(2, \<lparr>role = Agent, content = ''Hi there'', executionId = Some ''exec_1''\<rparr>)"
  let ?st1 = "initialHook\<lparr>messages := [?u], nextAddr := 1\<rparr>"
  let ?st2 = "initialHook\<lparr>messages := [?u, ?a], nextAddr := 3\<rparr>"
  have "map snd (messages (deliverText ''a1'' ''exec_1'' [(''Hi '', 1002), (''there'', 1003)] ?st1)) =
      map snd (messages ?st1) @
        [\<lparr>role = Agent, content = concat (map fst [(''Hi '', 1002::int), (''there'', 1003)]),
          executionId = Some ''exec_1''\<rparr>]"
    using text_deltas_concatenate
      [where deltas = "[(''Hi '', 1002), (''there'', 1003)]" and st = ?st1 and agentId = "''a1''"
         and execId = "''exec_1''"]
    by simp
  moreover have "map snd (messages (deliverText ''a1'' ''exec_2'' [(''More'', 1005)] ?st2)) =
      map snd (butlast (messages ?st2)) @
        [(snd (last (messages ?st2)))
           \<lparr>content := content (snd (last (messages ?st2))) @ concat (map fst [(''More'', 1005::int)])\<rparr>]"
    using text_deltas_concatenate
      [where deltas = "[(''More'', 1005)]" and st = ?st2 and agentId = "''a1''" and execId = "''exec_2''"]
    by simp
  ultimately show ?thesis by simp
qed

text \<open>
  Claim C1 as stated puts no condition on the transcript the deltas arrive in. When it
  ends with an agent message (the answer to an earlier message, followed by a send with
  \<open>skipUserMessage\<close>), the final transcript has no agent message whose content is
  \<open>Hi there\<close>, the concatenation of the payloads: they are appended to the earlier
  answer.
\<close>

theorem text_deltas_merge_counterexample:
  "map snd (messages (deliverText ''a1'' ''exec_2'' [(''Hi '', 2002), (''there'', 2003)]
       (deliverText ''a1'' ''exec_1'' [(''Welcome. '', 1002)]
          (addOptimisticMessage ''a1'' ''hello'' 1000 initialHook)))) =
     [\<lparr>role = User, content = ''hello'', executionId = Some ''1000''\<rparr>,
      \<lparr>role = Agent, content = ''Welcome. Hi there'', executionId = Some ''exec_1''\<rparr>]"
  by (simp add: deliverText_def onTextDelta_def addOptimisticMessage_def appendUserMessage_def
      newUserMessage_def initialHook_def syncSession_def TEMPORARY_SESSION_ID_def toString_1000 Let_def)









text \<open>
  What \<open>handleSend\<close> does to the user messages of the transcript. \<open>runAgent\<close> never
  changes their number: \<open>onopen\<close> replaces the last user message by a copy, and a text
  delta touches agent messages only. So a send with \<open>skipUserMessage\<close> appends no
  user message, whatever the outcome; a send without it that succeeds leaves exactly one
  more user message; and after one that fails, a message object with the address of
  the appended user message is in the transcript. These are statements about the
  updates \<open>handleSend\<close> makes itself; what the effect that reloads \<open>messages\<close> from
  the stored session does afterwards is outside them.
\<close>

lemma userMessages_append: "userMessages (xs @ ys) = userMessages xs @ userMessages ys"
  by (simp add: userMessages_def)

lemma attachExecutionId_users:
  "length (userMessages (messages (attachExecutionId agentId sid execId now st))) =
   length (userMessages (messages st))"
proof (cases "messages st \<noteq> [] \<and> role (snd (last (messages st))) = User")
  case False
  then show ?thesis by (auto simp: attachExecutionId_def Let_def)
next
  case True
  then have split: "messages st = butlast (messages st) @ [last (messages st)]" by simp
  have "length (userMessages (messages st)) =
      length (userMessages (butlast (messages st))) + length (userMessages [last (messages st)])"
    by (subst split) (simp add: userMessages_append)
  with True show ?thesis
    by (simp add: attachExecutionId_def Let_def userMessages_append) (simp add: userMessages_def)
qed

lemma onopen_users:
  assumes "onopen agentId resp now st = Inr st'"
  shows "length (userMessages (messages st')) = length (userMessages (messages st))"
  using assms
  by (auto simp: onopen_def Let_def attachExecutionId_users split: if_splits option.splits)

lemma onTextDelta_users:
  "userMessages (messages (onTextDelta agentId d e now st)) = userMessages (messages st)"
proof (cases "messages st \<noteq> [] \<and> role (snd (last (messages st))) = Agent")
  case False
  then show ?thesis
    by (auto simp: onTextDelta_def Let_def userMessages_append) (simp_all add: userMessages_def)
next
  case True
  then have split: "messages st = butlast (messages st) @ [last (messages st)]" by simp
  have "userMessages (messages st) =
      userMessages (butlast (messages st)) @ userMessages [last (messages st)]"
    by (subst split) (simp add: userMessages_append)
  with True show ?thesis
    by (simp add: onTextDelta_def Let_def userMessages_append) (simp add: userMessages_def)
qed

lemma onmessage_users:
  "userMessages (messages (onmessage agentId fr now st)) = userMessages (messages st)"
proof (cases fr)
  case Malformed
  then show ?thesis by simp
next
  case (Parsed ev)
  then show ?thesis by (cases ev) (simp_all add: onTextDelta_users)
qed

lemma frames_users:
  "userMessages (messages (foldl (\<lambda>s (fr, now). onmessage agentId fr now s) st frames)) =
   userMessages (messages st)"
  by (induction frames arbitrary: st) (auto simp: onmessage_users)

lemma failed_messages: "messages (snd (failed agentId now st)) = messages st"
  by (simp add: failed_def onerror_def)

lemma onclose_messages: "messages (onclose agentId now st) = messages st"
  by (simp add: onclose_def)

lemma runAgent_users:
  "length (userMessages (messages (snd (runAgent agentId ex st)))) = length (userMessages (messages st))"
proof (cases ex)
  case (ConnectionFailed now)
  then show ?thesis by (simp add: failed_messages)
next
  case (Responded resp tOpen frames how tEnd)
  let ?st0 = "st\<lparr>inProgress := True, debug := initialDebugState (debugData (debug st))\<rparr>"
  show ?thesis
  proof (cases "onopen agentId resp tOpen ?st0")
    case (Inl err)
    with Responded show ?thesis by (simp add: failed_messages)
  next
    case (Inr st1)
    from onopen_users [OF Inr] have "length (userMessages (messages st1)) = length (userMessages (messages st))"
      by simp
    with Responded Inr show ?thesis
      by (cases how) (simp_all add: failed_messages onclose_messages frames_users)
  qed
qed

lemma handleSend_skip_appends_no_user_message:
  "length (userMessages (messages (snd (handleSend agentId input True now ex st)))) =
   length (userMessages (messages st))"
proof -
  let ?st0 = "st\<lparr>nextAddr := Suc (nextAddr st)\<rparr>"
  have "messages (snd (handleSend agentId input True now ex st)) = messages (snd (runAgent agentId ex ?st0))"
    by (simp add: handleSend_def Let_def split: prod.splits option.splits)
  with runAgent_users [of agentId ex ?st0] show ?thesis by simp
qed

lemma handleSend_success_one_user_message:
  assumes "fst (handleSend agentId input False now ex st) = None"
  shows "length (userMessages (messages (snd (handleSend agentId input False now ex st)))) =
     Suc (length (userMessages (messages st)))"
proof -
  let ?st1 = "appendUserMessage agentId (newUserMessage input now st) now (st\<lparr>nextAddr := Suc (nextAddr st)\<rparr>)"
  from assms have "messages (snd (handleSend agentId input False now ex st)) =
      messages (snd (runAgent agentId ex ?st1))"
    by (simp add: handleSend_def Let_def split: prod.splits option.splits)
  moreover have "length (userMessages (messages ?st1)) = Suc (length (userMessages (messages st)))"
    by (simp add: appendUserMessage_def newUserMessage_def Let_def userMessages_def)
  ultimately show ?thesis
    using runAgent_users [of agentId ex ?st1] by simp
qed

lemma handleSend_failure_keeps_user_message:
  assumes "fst (handleSend agentId input False now ex st) \<noteq> None"
  shows "\<exists>m\<in>set (messages (snd (handleSend agentId input False now ex st))). fst m = nextAddr st"
proof -
  let ?u = "newUserMessage input now st"
  let ?st1 = "appendUserMessage agentId ?u now (st\<lparr>nextAddr := Suc (nextAddr st)\<rparr>)"
  obtain r st2 where run: "runAgent agentId ex ?st1 = (r, st2)" by (cases "runAgent agentId ex ?st1")
  with assms obtain err where r: "r = Some err"
    by (cases r) (simp_all add: handleSend_def Let_def)
  have "snd (handleSend agentId input False now ex st) = preserveUserMessage agentId ?u (endTime ex) st2"
    using run r by (simp add: handleSend_def Let_def)
  moreover have "\<exists>m\<in>set (messages (preserveUserMessage agentId ?u (endTime ex) st2)). fst m = fst ?u"
    by (auto simp: preserveUserMessage_def Let_def)
  ultimately show ?thesis by (simp add: newUserMessage_def)
qed

text \<open>
  Claim C2. The claim fails for a send without \<open>skipUserMessage\<close> whose response
  carries an execution id and whose stream then breaks. \<open>onopen\<close> has replaced the
  user message by a copy (a new object) that carries the execution id; the \<open>catch\<close>
  of \<open>handleSend\<close> looks for the original object with \<open>===\<close>, does not find it and
  appends it again. The transcript, and the session, end up with the user's input twice.
\<close>

theorem handleSend_duplicates_user_message:
  "handleSend ''a1'' ''hello'' False 1000
     (Responded
        \<lparr>respStatus = 200, sessionIdHeader = Some ''sess_1'', sessionNameHeader = None,
           executionIdHeader = Some ''exec_1''\<rparr> 1001
        [(Parsed (LLMTextDelta ''Hi '' ''exec_1''), 1002)] StreamBroken 1003)
     initialHook =
   (Some FailedToExecute,
    \<lparr>messages =
       [(1, \<lparr>role = User, content = ''hello'', executionId = Some ''exec_1''\<rparr>),
        (2, \<lparr>role = Agent, content = ''Hi '', executionId = Some ''exec_1''\<rparr>),
        (0, \<lparr>role = User, content = ''hello'', executionId = Some ''1000''\<rparr>)],
     inProgress = False, currentSessionId = Some ''sess_1'',
     allSessions =
       [(''a1'',
         [(''sess_1'',
           \<lparr>sessId = Some ''sess_1'', createdAt = Some 1001, updatedAt = 1003,
              sessMessages =
                [(1, \<lparr>role = User, content = ''hello'', executionId = Some ''exec_1''\<rparr>),
                 (2, \<lparr>role = Agent, content = ''Hi '', executionId = Some ''exec_1''\<rparr>),
                 (0, \<lparr>role = User, content = ''hello'', executionId = Some ''1000''\<rparr>)],
              sessName = Some ''New Chat''\<rparr>)])],
     debug = \<lparr>lastReasoningIndex = - 1, debugData = []\<rparr>, nextAddr = 3\<rparr>)"
proof -
  let ?u = "(0::nat, \<lparr>role = User, content = ''hello'', executionId = Some ''1000''\<rparr>)"
  let ?u' = "(1::nat, \<lparr>role = User, content = ''hello'', executionId = Some ''exec_1''\<rparr>)"
  let ?a = "(2::nat, \<lparr>role = Agent, content = ''Hi '', executionId = Some ''exec_1''\<rparr>)"
  let ?resp = "\<lparr>respStatus = 200, sessionIdHeader = Some ''sess_1'', sessionNameHeader = None,
           executionIdHeader = Some ''exec_1''\<rparr>"
  let ?d = "\<lparr>lastReasoningIndex = - 1, debugData = []\<rparr>"
  let ?ex = "Responded ?resp 1001 [(Parsed (LLMTextDelta ''Hi '' ''exec_1''), 1002)] StreamBroken 1003"
  let ?st1 = "\<lparr>messages = [?u], inProgress = False, currentSessionId = Some ''sess_temp'',
      allSessions = [], debug = ?d, nextAddr = 1\<rparr>"
  let ?st0 = "?st1\<lparr>inProgress := True\<rparr>"
  let ?sess = "\<lambda>t ms. [(''a1'', [(''sess_1'',
           \<lparr>sessId = Some ''sess_1'', createdAt = Some 1001, updatedAt = t,
              sessMessages = ms, sessName = Some ''New Chat''\<rparr>)])]"
  let ?st2 = "\<lparr>messages = [?u'], inProgress = True, currentSessionId = Some ''sess_1'',
      allSessions = ?sess 1001 [?u], debug = ?d, nextAddr = 2\<rparr>"
  let ?st3 = "\<lparr>messages = [?u', ?a], inProgress = True, currentSessionId = Some ''sess_1'',
      allSessions = ?sess 1002 [?u', ?a], debug = ?d, nextAddr = 3\<rparr>"
  let ?st4 = "\<lparr>messages = [?u', ?a], inProgress = False, currentSessionId = Some ''sess_1'',
      allSessions = ?sess 1003 [?u', ?a], debug = ?d, nextAddr = 3\<rparr>"
  let ?st5 = "\<lparr>messages = [?u', ?a, ?u], inProgress = False, currentSessionId = Some ''sess_1'',
      allSessions = ?sess 1003 [?u', ?a, ?u], debug = ?d, nextAddr = 3\<rparr>"
  have user: "newUserMessage ''hello'' 1000 initialHook = ?u"
    by (simp add: newUserMessage_def initialHook_def toString_1000)
  have s1: "appendUserMessage ''a1'' ?u 1000 (initialHook\<lparr>nextAddr := Suc (nextAddr initialHook)\<rparr>) = ?st1"
    by (simp add: appendUserMessage_def initialHook_def initialDebugState_def syncSession_def
        TEMPORARY_SESSION_ID_def Let_def)
  have s0: "?st1\<lparr>inProgress := True, debug := initialDebugState (debugData (debug ?st1))\<rparr> = ?st0"
    by (simp add: initialDebugState_def)
  have s2: "onopen ''a1'' ?resp 1001 ?st0 = Inr ?st2"
    by (simp add: onopen_def falsy_def TEMPORARY_SESSION_ID_def DEFAULT_SESSION_NAME_def
        createSessionFromResponse_def agentSessionsOf_def attachExecutionId_def syncSession_def Let_def)
  have s3: "onmessage ''a1'' (Parsed (LLMTextDelta ''Hi '' ''exec_1'')) 1002 ?st2 = ?st3"
    by (simp add: onTextDelta_def syncSession_def agentSessionsOf_def TEMPORARY_SESSION_ID_def Let_def)
  have e1: "onerror ''a1'' 1003 ?st3 = ?st4"
    by (simp add: onerror_def syncSession_def agentSessionsOf_def TEMPORARY_SESSION_ID_def Let_def)
  have e2: "onerror ''a1'' 1003 ?st4 = ?st4"
    by (simp add: onerror_def syncSession_def agentSessionsOf_def TEMPORARY_SESSION_ID_def Let_def)
  have s4: "failed ''a1'' 1003 ?st3 = (Some FailedToExecute, ?st4)"
    by (simp only: failed_def e1 e2)
  have run: "runAgent ''a1'' ?ex ?st1 = (Some FailedToExecute, ?st4)"
    by (simp only: runAgent.simps Let_def s0 s2 sum.case foldl_Cons foldl_Nil prod.case s3
        ending.case s4)
  have s5: "preserveUserMessage ''a1'' ?u 1003 ?st4 = ?st5"
    by (simp add: preserveUserMessage_def syncSession_def agentSessionsOf_def
        TEMPORARY_SESSION_ID_def Let_def)
  show ?thesis
    by (simp only: handleSend_def Let_def user s1 run prod.case option.case endTime.simps s5
        not_False_eq_True if_True)
qed

section \<open>Properties of the synced atom\<close>

text \<open>
  Claim C8. A write of a value the storage rejects. The in-memory value is the new
  value in every case. The write function tries the storage once more: with the
  degraded value when an override function is given and returns a truthy value,
  otherwise with the same value. When the storage accepts the retry, the degraded value
  is what is persisted and the write returns; when it rejects the retry (as it does the
  same value again), the persisted value stays as it was and the storage error leaves
  the write function.
\<close>

theorem rejected_write_retried_once:
  "(case update of Updater g \<Rightarrow> g (baseAtom s) | Direct a \<Rightarrow> a) = Value v \<and> \<not> accepts v \<longrightarrow>
     (overrideValue = Some f \<and> truthy (f v) \<and> accepts (f v) \<longrightarrow>
        writeAtom initialValue accepts overrideValue truthy update s =
          (None, \<lparr>baseAtom = v, stored = Some (f v)\<rparr>))
   \<and> (overrideValue = Some f \<and> truthy (f v) \<and> \<not> accepts (f v) \<longrightarrow>
        writeAtom initialValue accepts overrideValue truthy update s =
          (Some QuotaExceeded, \<lparr>baseAtom = v, stored = stored s\<rparr>))
   \<and> (overrideValue = None \<or> (overrideValue = Some f \<and> \<not> truthy (f v)) \<longrightarrow>
        writeAtom initialValue accepts overrideValue truthy update s =
          (Some QuotaExceeded, \<lparr>baseAtom = v, stored = stored s\<rparr>))"
  by (auto simp: writeAtom_def setItem_def Let_def)

text \<open>
  The theorem for a storage that accepts strings of at most three characters: an
  override that truncates enough, one that does not, and one that returns the empty
  (falsy) string.
\<close>

theorem rejected_write_retried_once_witness:
  "writeAtom '''' (\<lambda>v. length v \<le> 3) (Some (take 3)) (\<lambda>v. v \<noteq> []) (Direct (Value ''abcdef''))
       \<lparr>baseAtom = ''old'', stored = Some ''old''\<rparr> =
     (None, \<lparr>baseAtom = ''abcdef'', stored = Some ''abc''\<rparr>)
   \<and> writeAtom '''' (\<lambda>v. length v \<le> 3) (Some (take 4)) (\<lambda>v. v \<noteq> [])
        (Updater (\<lambda>prev. Value (prev @ ''def'')))
        \<lparr>baseAtom = ''abc'', stored = Some ''abc''\<rparr> =
     (Some QuotaExceeded, \<lparr>baseAtom = ''abcdef'', stored = Some ''abc''\<rparr>)
   \<and> writeAtom '''' (\<lambda>v. length v \<le> 3) (Some (take 0)) (\<lambda>v. v \<noteq> []) (Direct (Value ''abcdef''))
        \<lparr>baseAtom = ''old'', stored = Some ''old''\<rparr> =
     (Some QuotaExceeded, \<lparr>baseAtom = ''abcdef'', stored = Some ''old''\<rparr>)"
proof -
  let ?acc = "\<lambda>v::string. length v \<le> 3"
  let ?tr = "\<lambda>v::string. v \<noteq> []"
  let ?old = "\<lparr>baseAtom = ''old'', stored = Some ''old''\<rparr>"
  let ?abc = "\<lparr>baseAtom = ''abc'', stored = Some ''abc''\<rparr>"
  have a: "writeAtom '''' ?acc (Some (take 3)) ?tr (Direct (Value ''abcdef'')) ?old =
     (None, \<lparr>baseAtom = ''abcdef'', stored = Some ''abc''\<rparr>)"
    using rejected_write_retried_once
      [where update = "Direct (Value ''abcdef'')" and s = ?old and v = "''abcdef''" and accepts = ?acc
         and overrideValue = "Some (take 3)" and f = "take 3" and truthy = ?tr and initialValue = "''''"]
    by simp
  have b: "writeAtom '''' ?acc (Some (take 4)) ?tr (Updater (\<lambda>prev. Value (prev @ ''def''))) ?abc =
     (Some QuotaExceeded, \<lparr>baseAtom = ''abcdef'', stored = Some ''abc''\<rparr>)"
    using rejected_write_retried_once
      [where update = "Updater (\<lambda>prev. Value (prev @ ''def''))" and s = ?abc and v = "''abcdef''"
         and accepts = ?acc and overrideValue = "Some (take 4)" and f = "take 4" and truthy = ?tr
         and initialValue = "''''"]
    by simp
  have c: "writeAtom '''' ?acc (Some (take 0)) ?tr (Direct (Value ''abcdef'')) ?old =
     (Some QuotaExceeded, \<lparr>baseAtom = ''abcdef'', stored = Some ''old''\<rparr>)"
    using rejected_write_retried_once
      [where update = "Direct (Value ''abcdef'')" and s = ?old and v = "''abcdef''" and accepts = ?acc
         and overrideValue = "Some (take 0)" and f = "take 0" and truthy = ?tr and initialValue = "''''"]
    by simp
  show ?thesis
    by (intro conjI) (rule a, rule b, rule c)
qed

text \<open>
  Claim C8 as stated says that without an override function the write is lost silently.
  The \<open>catch\<close> block calls \<open>storage.setItem\<close> again with the same value and nothing
  catches its exception: the caller gets the storage error.
\<close>

theorem rejected_write_error_surfaces_counterexample:
  "writeAtom '''' (\<lambda>v. length v \<le> 3) None (\<lambda>v. v \<noteq> []) (Direct (Value ''abcdef''))
       \<lparr>baseAtom = ''old'', stored = Some ''old''\<rparr> =
     (Some QuotaExceeded, \<lparr>baseAtom = ''abcdef'', stored = Some ''old''\<rparr>)"
  by (simp add: writeAtom_def setItem_def)

end
